theory Spec2Isabelle
  imports Complex_Main "HOL-Library.AList" "HOL-Library.Product_Lexorder"
begin

section \<open>Minute normalizer (server/services/providers/sportmonks-adapter.ts)\<close>

text \<open>
  Numbers of the source that hold minutes and epoch milliseconds are modelled as \<open>int\<close>.
  \<open>Math.floor (x / k)\<close> on such values is \<open>x div k\<close> (Isabelle's \<open>div\<close> on \<open>int\<close> rounds
  towards minus infinity, as \<open>Math.floor\<close> does). Every call reads the wall clock
  (\<open>Date.now()\<close>) and gets the reading \<open>now\<close> as an argument; one call is modelled with
  one reading.
\<close>

record CacheEntry =
  minute :: int
  timestamp :: int

record RawChange =
  rawMinute :: int
  changedAt :: int

text \<open>The three module-level maps of the adapter, keyed by match id.\<close>

record AdapterState =
  lastMinuteCache :: "string \<rightharpoonup> CacheEntry"
  lastNormalizedMinute :: "string \<rightharpoonup> CacheEntry"
  lastRawMinuteChange :: "string \<rightharpoonup> RawChange"

record AdapterConfig =
  USE_STARTING_AT_FALLBACK :: bool
  LAST_MINUTE_CACHE_SEC :: int

definition STALE_MINUTE_THRESHOLD_MS :: int where
  "STALE_MINUTE_THRESHOLD_MS = 30000"

text \<open>
  The fields of a raw provider payload that \<open>extractMinute\<close> and \<open>normalizeSmMatch\<close> read.
  A field is \<open>Some v\<close> when the payload has it with \<open>typeof v === 'number'\<close>.
  \<open>events\<close> is the array \<open>m?.events?.data || m?.events\<close> (empty when it is no array), each
  event given by its \<open>minute\<close>. \<open>statusUpper\<close> is
  \<open>(m?.status?.name || m?.time?.status || '').toString().toUpperCase()\<close>, \<open>startTs\<close> the
  value of the local \<open>startTs\<close> (\<open>None\<close> for \<open>undefined\<close> and for \<open>NaN\<close>), and \<open>matchKey\<close> is
  \<open>String(raw?.id ?? raw?.fixture_id ?? raw?.uuid ?? 'unknown')\<close>.
\<close>

record RawMatch =
  matchKey :: string
  time_minute :: "int option"
  time_minutes :: "int option"
  time_current_minute :: "int option"
  live_minute :: "int option"
  periods_data0_minute :: "int option"
  periods_first_minute :: "int option"
  events :: "int option list"
  statusUpper :: string
  startTs :: "int option"

definition liveStatuses :: "string list" where
  "liveStatuses = [''LIVE'', ''INPLAY'', ''1ST_HALF'', ''2ND_HALF'', ''ET'', ''AET'', ''PEN'']"

text \<open>Step 4 of \<open>extractMinute\<close>: the first of the given events with a positive minute.\<close>

fun firstEventMinute :: "int option list \<Rightarrow> int option" where
  "firstEventMinute [] = None"
| "firstEventMinute (None # es) = firstEventMinute es"
| "firstEventMinute (Some v # es) = (if v > 0 then Some v else firstEventMinute es)"

text \<open>Step 5 of \<open>extractMinute\<close>: the estimate from the kickoff timestamp.\<close>

definition startingAtMinute :: "AdapterConfig \<Rightarrow> RawMatch \<Rightarrow> int \<Rightarrow> int" where
  "startingAtMinute cfg m nowMs =
     (if USE_STARTING_AT_FALLBACK cfg then
        (case startTs m of
           None \<Rightarrow> 0
         | Some st \<Rightarrow>
             (if st \<noteq> 0 \<and> (statusUpper m \<in> set liveStatuses \<or> statusUpper m = ''''
                            \<or> statusUpper m = ''UNDEFINED'') then
                (let now = nowMs div 1000;
                     elapsed = max 0 ((now - st) div 60);
                     calculatedMinute = min 130 elapsed
                 in if calculatedMinute > 0 then calculatedMinute else 0)
              else 0))
      else 0)"

definition extractMinute :: "AdapterConfig \<Rightarrow> RawMatch \<Rightarrow> int \<Rightarrow> int" where
  "extractMinute cfg m nowMs =
     (if time_minute m \<noteq> None then the (time_minute m)
      else if time_minutes m \<noteq> None then the (time_minutes m)
      else if time_current_minute m \<noteq> None then the (time_current_minute m)
      else if live_minute m \<noteq> None then the (live_minute m)
      else if periods_data0_minute m \<noteq> None \<and> periods_data0_minute m \<noteq> Some 0
        then the (periods_data0_minute m)
      else if periods_first_minute m \<noteq> None \<and> periods_first_minute m \<noteq> Some 0
        then the (periods_first_minute m)
      else if firstEventMinute (take 5 (events m)) \<noteq> None
        then the (firstEventMinute (take 5 (events m)))
      else startingAtMinute cfg m nowMs)"

text \<open>
  \<open>applyLastMinuteCache\<close> of the adapter. \<open>ageSeconds = (now - cached.timestamp) / 1000\<close> is
  a fraction in the source; \<open>Math.floor (ageSeconds / 60)\<close> is \<open>(now - timestamp) div 60000\<close>
  and \<open>ageSeconds < LAST_MINUTE_CACHE_SEC\<close> is \<open>now - timestamp < 1000 * LAST_MINUTE_CACHE_SEC\<close>.
\<close>

definition applyLastMinuteCache ::
  "AdapterConfig \<Rightarrow> (string \<rightharpoonup> CacheEntry) \<Rightarrow> string \<Rightarrow> int \<Rightarrow> int
     \<Rightarrow> int \<times> (string \<rightharpoonup> CacheEntry)" where
  "applyLastMinuteCache cfg cache matchId mn now =
     (if mn > 0 then
        (case cache matchId of
           None \<Rightarrow> (mn, cache(matchId \<mapsto> \<lparr>minute = mn, timestamp = now\<rparr>))
         | Some cached \<Rightarrow>
             if mn > minute cached
             then (mn, cache(matchId \<mapsto> \<lparr>minute = mn, timestamp = now\<rparr>))
             else (mn, cache))
      else
        (case cache matchId of
           None \<Rightarrow> (0, cache)
         | Some cached \<Rightarrow>
             (let elapsedMinutes = (now - timestamp cached) div 60000;
                  inflatedMinute = min 130 (minute cached + max 0 elapsedMinutes)
              in if now - timestamp cached < 1000 * LAST_MINUTE_CACHE_SEC cfg
                 then (inflatedMinute, cache)
                 else (0, cache))))"

text \<open>Lines 160-169 of \<open>normalizeSmMatch\<close>: the tracker of raw changes and \<open>isStale\<close>.\<close>

definition trackRawChange ::
  "(string \<rightharpoonup> RawChange) \<Rightarrow> string \<Rightarrow> int \<Rightarrow> int \<Rightarrow> bool \<times> (string \<rightharpoonup> RawChange)" where
  "trackRawChange tr matchId raw now =
     (case tr matchId of
        None \<Rightarrow> (False, tr(matchId \<mapsto> \<lparr>rawMinute = raw, changedAt = now\<rparr>))
      | Some lastRawChange \<Rightarrow>
          if rawMinute lastRawChange \<noteq> raw
          then (False, tr(matchId \<mapsto> \<lparr>rawMinute = raw, changedAt = now\<rparr>))
          else if raw > 0 \<and> now - changedAt lastRawChange > STALE_MINUTE_THRESHOLD_MS
          then (True, tr)
          else (False, tr))"

text \<open>Lines 175-194: the override guard.\<close>

definition overrideGuard :: "CacheEntry option \<Rightarrow> int \<Rightarrow> bool \<Rightarrow> int \<Rightarrow> int \<Rightarrow> int" where
  "overrideGuard prevNormalized raw isStale cachedMinute now =
     (case prevNormalized of
        Some prev \<Rightarrow>
          if (raw = 0 \<or> isStale) \<and> minute prev > 0 then
            (let elapsedMinutes = (now - timestamp prev) div 60000;
                 inflatedFromPrev = min 130 (minute prev + elapsedMinutes)
             in max cachedMinute inflatedFromPrev)
          else if cachedMinute > 0 then cachedMinute else raw
      | None \<Rightarrow> if cachedMinute > 0 then cachedMinute else raw)"

text \<open>Lines 197-206: the last normalized minute, rewritten only when it increases.\<close>

definition trackNormalized ::
  "(string \<rightharpoonup> CacheEntry) \<Rightarrow> string \<Rightarrow> int \<Rightarrow> int \<Rightarrow> (string \<rightharpoonup> CacheEntry)" where
  "trackNormalized prevMap matchId normalizedMinute now =
     (if normalizedMinute > 0 then
        (case prevMap matchId of
           None \<Rightarrow> prevMap(matchId \<mapsto> \<lparr>minute = normalizedMinute, timestamp = now\<rparr>)
         | Some prev \<Rightarrow>
             if normalizedMinute > minute prev
             then prevMap(matchId \<mapsto> \<lparr>minute = normalizedMinute, timestamp = now\<rparr>)
             else prevMap)
      else prevMap)"

text \<open>
  The minute part of \<open>normalizeSmMatch\<close>, from the raw minute on (lines 156-206): the
  returned pair is the field \<open>minute\<close> of the result and the state of the three maps.
\<close>

definition normalizeMinute ::
  "AdapterConfig \<Rightarrow> AdapterState \<Rightarrow> string \<Rightarrow> int \<Rightarrow> int \<Rightarrow> int \<times> AdapterState" where
  "normalizeMinute cfg st matchId raw now =
     (let (isStale, tr') = trackRawChange (lastRawMinuteChange st) matchId raw now;
          (cachedMinute, cache') = applyLastMinuteCache cfg (lastMinuteCache st) matchId raw now;
          normalizedMinute =
            overrideGuard (lastNormalizedMinute st matchId) raw isStale cachedMinute now;
          prevMap' = trackNormalized (lastNormalizedMinute st) matchId normalizedMinute now
      in (normalizedMinute,
          \<lparr>lastMinuteCache = cache', lastNormalizedMinute = prevMap', lastRawMinuteChange = tr'\<rparr>))"

definition normalizeSmMatch ::
  "AdapterConfig \<Rightarrow> AdapterState \<Rightarrow> RawMatch \<Rightarrow> int \<Rightarrow> int \<times> AdapterState" where
  "normalizeSmMatch cfg st raw now =
     normalizeMinute cfg st (matchKey raw) (extractMinute cfg raw now) now"

definition emptyAdapterState :: AdapterState where
  "emptyAdapterState =
     \<lparr>lastMinuteCache = Map.empty, lastNormalizedMinute = Map.empty,
      lastRawMinuteChange = Map.empty\<rparr>"

definition defaultAdapterConfig :: AdapterConfig where
  "defaultAdapterConfig = \<lparr>USE_STARTING_AT_FALLBACK = True, LAST_MINUTE_CACHE_SEC = 90\<rparr>"

text \<open>A payload with a match id and nothing else; the examples below fill in fields.\<close>

definition barePayload :: "string \<Rightarrow> RawMatch" where
  "barePayload k =
     \<lparr>matchKey = k, time_minute = None, time_minutes = None, time_current_minute = None,
      live_minute = None, periods_data0_minute = None, periods_first_minute = None,
      events = [], statusUpper = '''', startTs = None\<rparr>"

text \<open>The minutes the feed itself states (steps 1 to 4 of \<open>extractMinute\<close>).\<close>

definition feedMinutes :: "RawMatch \<Rightarrow> int option list" where
  "feedMinutes m =
     [time_minute m, time_minutes m, time_current_minute m, live_minute m,
      periods_data0_minute m, periods_first_minute m] @ take 5 (events m)"

section \<open>The minute normalizer of the client (server/services/sportmonks-client.ts)\<close>

record ClientState =
  clientLastMinuteCache :: "string \<rightharpoonup> CacheEntry"
  lastChangeCache :: "string \<rightharpoonup> CacheEntry"

text \<open>
  \<open>SportMonksClient.applyLastMinuteCache\<close>: the result is the pair
  \<open>{minute, usedCache}\<close>, returned with the two maps.
\<close>

definition client_applyLastMinuteCache ::
  "int \<Rightarrow> ClientState \<Rightarrow> string \<Rightarrow> int \<Rightarrow> int \<Rightarrow> (int \<times> bool) \<times> ClientState" where
  "client_applyLastMinuteCache cacheSec st matchId mn now =
     (if mn > 0 then
        (let changeCache' =
               (case lastChangeCache st matchId of
                  None \<Rightarrow> (lastChangeCache st)(matchId \<mapsto> \<lparr>minute = mn, timestamp = now\<rparr>)
                | Some prevChange \<Rightarrow>
                    if mn \<noteq> minute prevChange
                    then (lastChangeCache st)(matchId \<mapsto> \<lparr>minute = mn, timestamp = now\<rparr>)
                    else lastChangeCache st)
         in ((mn, False),
             \<lparr>clientLastMinuteCache =
                 (clientLastMinuteCache st)(matchId \<mapsto> \<lparr>minute = mn, timestamp = now\<rparr>),
              lastChangeCache = changeCache'\<rparr>))
      else
        (case clientLastMinuteCache st matchId of
           None \<Rightarrow> ((0, False), st)
         | Some cached \<Rightarrow>
             (let elapsedMinutes = (now - timestamp cached) div 60000;
                  inflatedMinute = min 130 (minute cached + max 0 elapsedMinutes)
              in if now - timestamp cached < 1000 * cacheSec
                 then ((inflatedMinute, True), st)
                 else ((0, False), st))))"

definition emptyClientState :: ClientState where
  "emptyClientState = \<lparr>clientLastMinuteCache = Map.empty, lastChangeCache = Map.empty\<rparr>"

text \<open>
  Two notions for stating properties of successive calls. \<open>normalizedNotAhead st k t\<close>:
  the entry of match \<open>k\<close> in \<open>lastNormalizedMinute\<close> was not stamped after \<open>t\<close> (the
  stamps are earlier readings of the clock). \<open>sameMatchState k a b\<close>: the two states hold
  the same entries for match \<open>k\<close>, whatever they hold for other matches.
\<close>

definition normalizedNotAhead :: "AdapterState \<Rightarrow> string \<Rightarrow> int \<Rightarrow> bool" where
  "normalizedNotAhead st k t =
     (case lastNormalizedMinute st k of None \<Rightarrow> True | Some e \<Rightarrow> timestamp e \<le> t)"

definition sameMatchState :: "string \<Rightarrow> AdapterState \<Rightarrow> AdapterState \<Rightarrow> bool" where
  "sameMatchState k a b =
     (lastMinuteCache a k = lastMinuteCache b k
      \<and> lastNormalizedMinute a k = lastNormalizedMinute b k
      \<and> lastRawMinuteChange a k = lastRawMinuteChange b k)"

section \<open>Signal lifecycle manager (server/services/active-signal-service.ts)\<close>

text \<open>
  A \<open>number\<close> of the source is a \<open>real\<close> here (confidence, seconds), an epoch reading of
  \<open>Date.now()\<close> an \<open>int\<close> of milliseconds, and a limit handed to \<open>Array.slice\<close> a \<open>nat\<close>.
  The field \<open>id\<close> of the source is \<open>sid\<close>, and \<open>minute\<close> is \<open>sminute\<close>. A call of
  \<open>update\<close> or \<open>getSnapshot\<close> runs to its end without a pause, and all its readings of
  \<open>Date.now()\<close> are modelled as the one reading \<open>now\<close>.
\<close>

datatype SignalState = PRE | CANDIDATE | ACTIVE | EXPIRED

record SignalCandidate =
  sid :: string
  matchId :: string
  market :: string
  selection :: string
  homeTeam :: string
  awayTeam :: string
  league :: string
  confidence :: real
  sminute :: int
  liquidityOk :: bool
  ttlSeconds :: real
  state :: SignalState
  reasoning :: string
  createdTs :: int
  lastUpdateTs :: int
  odds :: "real option"
  bookmaker :: "string option"
  isValueBet :: "bool option"
  impliedProbability :: "real option"
  valueScore :: "real option"
  meta :: "(string \<times> string) list"

record MarketConfig =
  enabled :: bool
  minConfidence :: real
  maxSignalsPerMatch :: nat

record MarketsConfig =
  over_under :: MarketConfig
  btts :: MarketConfig
  next_goal :: MarketConfig

record ActiveSignalConfig =
  confidenceActive :: real
  maxActive :: nat
  cooldownSeconds :: real
  maturationWindow :: real
  signalTTL :: real
  markets :: MarketsConfig

text \<open>The configuration the constructor builds when it is given nothing.\<close>

definition defaultConfig :: ActiveSignalConfig where
  "defaultConfig =
     \<lparr>confidenceActive = 65, maxActive = 10, cooldownSeconds = 300, maturationWindow = 60,
      signalTTL = 15,
      markets =
        \<lparr>over_under = \<lparr>enabled = True, minConfidence = 65, maxSignalsPerMatch = 2\<rparr>,
         btts = \<lparr>enabled = True, minConfidence = 60, maxSignalsPerMatch = 2\<rparr>,
         next_goal = \<lparr>enabled = True, minConfidence = 70, maxSignalsPerMatch = 1\<rparr>\<rparr>\<rparr>"

text \<open>
  The two maps of the service. \<open>signals\<close> is a JavaScript \<open>Map\<close>, which iterates in the
  order in which its keys were first set: an association list, with \<open>Map.set\<close> as
  \<open>AList.update\<close> (in place for a key that is there, at the end for a new one) and
  \<open>Map.delete\<close> as \<open>AList.delete\<close>. Only lookups are made in \<open>cooldown\<close>.
\<close>

record ServiceState =
  signals :: "(string \<times> SignalCandidate) list"
  cooldown :: "string \<rightharpoonup> int"

definition emptyService :: ServiceState where
  "emptyService = \<lparr>signals = [], cooldown = Map.empty\<rparr>"

definition startsWith :: "string \<Rightarrow> string \<Rightarrow> bool" where
  "startsWith s p = (take (length p) s = p)"

definition getMarketThreshold :: "ActiveSignalConfig \<Rightarrow> string \<Rightarrow> real" where
  "getMarketThreshold cfg mk =
     (if startsWith mk ''over_'' \<or> startsWith mk ''under_''
        then minConfidence (over_under (markets cfg))
      else if startsWith mk ''btts'' then minConfidence (btts (markets cfg))
      else if startsWith mk ''next_goal'' then minConfidence (next_goal (markets cfg))
      else confidenceActive cfg)"

definition getPerMatchLimit :: "ActiveSignalConfig \<Rightarrow> string \<Rightarrow> nat" where
  "getPerMatchLimit cfg mk =
     (if startsWith mk ''over_'' \<or> startsWith mk ''under_''
        then maxSignalsPerMatch (over_under (markets cfg))
      else if startsWith mk ''btts'' then maxSignalsPerMatch (btts (markets cfg))
      else if startsWith mk ''next_goal'' then maxSignalsPerMatch (next_goal (markets cfg))
      else 2)"

definition getMarketType :: "string \<Rightarrow> string" where
  "getMarketType mk =
     (if startsWith mk ''over_'' \<or> startsWith mk ''under_'' then ''ou''
      else if startsWith mk ''btts'' then ''btts''
      else if startsWith mk ''next_goal'' then ''next_goal''
      else ''other'')"

definition getTimeLeft :: "int \<Rightarrow> SignalCandidate \<Rightarrow> real" where
  "getTimeLeft now signal =
     (let age = real_of_int (now - createdTs signal) / 1000
      in max 0 (ttlSeconds signal - age))"

definition getAge :: "int \<Rightarrow> SignalCandidate \<Rightarrow> real" where
  "getAge now signal = real_of_int (now - createdTs signal) / 1000"

definition calculatePriority :: "int \<Rightarrow> SignalCandidate \<Rightarrow> real \<times> real" where
  "calculatePriority now signal = (- confidence signal, getTimeLeft now signal)"

text \<open>
  \<open>isDeduplicated\<close>: \<open>!lastActiveTs\<close> holds for a missing entry and for the stamp 0.
\<close>

definition isDeduplicated ::
  "ActiveSignalConfig \<Rightarrow> int \<Rightarrow> (string \<rightharpoonup> int) \<Rightarrow> SignalCandidate \<Rightarrow> bool" where
  "isDeduplicated cfg now cd signal =
     (case cd (sid signal) of
        None \<Rightarrow> True
      | Some lastActiveTs \<Rightarrow>
          if lastActiveTs = 0 then True
          else real_of_int (now - lastActiveTs) \<ge> cooldownSeconds cfg * 1000)"

text \<open>
  \<open>promoteSignal\<close> changes the signal it is given and the map \<open>cooldown\<close>; the model
  returns both.
\<close>

definition promoteSignal ::
  "ActiveSignalConfig \<Rightarrow> int \<Rightarrow> (string \<rightharpoonup> int) \<Rightarrow> SignalCandidate
     \<Rightarrow> SignalCandidate \<times> (string \<rightharpoonup> int)" where
  "promoteSignal cfg now cd signal =
     (let originalState = state signal;
          threshold = getMarketThreshold cfg (market signal);
          s1 = (if state signal = PRE \<and> confidence signal \<ge> threshold - 15
                   \<and> liquidityOk signal
                then signal\<lparr>state := CANDIDATE\<rparr> else signal);
          promote = (state s1 = CANDIDATE \<and> confidence s1 \<ge> threshold
                     \<and> getAge now s1 \<ge> maturationWindow cfg \<and> liquidityOk s1
                     \<and> isDeduplicated cfg now cd s1);
          s2 = (if promote then s1\<lparr>state := ACTIVE\<rparr> else s1);
          cd' = (if promote then cd(sid s1 \<mapsto> now) else cd);
          s3 = (if originalState \<noteq> state s2 then s2\<lparr>lastUpdateTs := now\<rparr> else s2)
      in (s3, cd'))"

definition expireSignal :: "int \<Rightarrow> SignalCandidate \<Rightarrow> bool \<times> SignalCandidate" where
  "expireSignal now signal =
     (if getTimeLeft now signal \<le> 0 then (True, signal\<lparr>state := EXPIRED\<rparr>)
      else (False, signal))"

text \<open>
  Lines 195-210 of \<open>update\<close>: the incoming candidate is stamped and, when its identity is
  in the live set, takes \<open>createdTs\<close> and \<open>state\<close> from the stored signal. The source also
  writes confidence, minute, liquidity, reasoning and the merged meta into the stored
  object \<open>existing\<close>; line 212 then puts the candidate in its place in the map, so these
  writes reach no object of the live set and are not part of the state.
\<close>

definition mergeExisting ::
  "(string \<times> SignalCandidate) list \<Rightarrow> int \<Rightarrow> SignalCandidate \<Rightarrow> SignalCandidate" where
  "mergeExisting sigs now candidate =
     (let c = candidate\<lparr>lastUpdateTs := now\<rparr>
      in case map_of sigs (sid c) of
           None \<Rightarrow> c
         | Some existing \<Rightarrow> c\<lparr>createdTs := createdTs existing, state := state existing\<rparr>)"

text \<open>
  The body of the loop over the candidates (lines 195-217). The map holds the object that
  \<open>promoteSignal\<close> changes afterwards, so the stored value is the promoted one.
\<close>

definition updateCandidate ::
  "ActiveSignalConfig \<Rightarrow> int \<Rightarrow> ServiceState \<Rightarrow> SignalCandidate \<Rightarrow> ServiceState" where
  "updateCandidate cfg now svc candidate =
     (let c = mergeExisting (signals svc) now candidate;
          promoted = (if state c = PRE \<or> state c = CANDIDATE
                      then promoteSignal cfg now (cooldown svc) c
                      else (c, cooldown svc))
      in \<lparr>signals = AList.update (sid c) (fst promoted) (signals svc),
          cooldown = snd promoted\<rparr>)"

text \<open>The signal that the loop body leaves in the map for the candidate.\<close>

definition storedAfter ::
  "ActiveSignalConfig \<Rightarrow> int \<Rightarrow> ServiceState \<Rightarrow> SignalCandidate \<Rightarrow> SignalCandidate" where
  "storedAfter cfg now svc candidate =
     (let c = mergeExisting (signals svc) now candidate
      in if state c = PRE \<or> state c = CANDIDATE
         then fst (promoteSignal cfg now (cooldown svc) c) else c)"

text \<open>
  Lines 220-231: every signal is offered to \<open>expireSignal\<close>, which marks it; the ids of
  the marked ones are collected and then deleted from the map.
\<close>

definition sweepExpired ::
  "int \<Rightarrow> (string \<times> SignalCandidate) list \<Rightarrow> (string \<times> SignalCandidate) list" where
  "sweepExpired now sigs =
     (let marked = map (\<lambda>(k, signal). (k, snd (expireSignal now signal))) sigs;
          expiredIds = map fst (filter (\<lambda>(k, signal). fst (expireSignal now signal)) sigs)
      in fold AList.delete expiredIds marked)"

text \<open>
  \<open>Array.prototype.sort\<close> with a comparator: a stable sort, the element \<open>a\<close> before \<open>b\<close>
  where the comparator is negative. The comparator of the four sorts of the source is
  \<open>comparePriority\<close>.
\<close>

definition comparePriority :: "int \<Rightarrow> SignalCandidate \<Rightarrow> SignalCandidate \<Rightarrow> real" where
  "comparePriority now a b =
     (let priorityA = calculatePriority now a;
          priorityB = calculatePriority now b
      in if fst priorityA \<noteq> fst priorityB then fst priorityA - fst priorityB
         else snd priorityA - snd priorityB)"

fun insertSorted :: "('a \<Rightarrow> 'a \<Rightarrow> real) \<Rightarrow> 'a \<Rightarrow> 'a list \<Rightarrow> 'a list" where
  "insertSorted cmp x [] = [x]"
| "insertSorted cmp x (y # ys) =
     (if cmp x y \<le> 0 then x # y # ys else y # insertSorted cmp x ys)"

definition arraySort :: "('a \<Rightarrow> 'a \<Rightarrow> real) \<Rightarrow> 'a list \<Rightarrow> 'a list" where
  "arraySort cmp xs = foldr (insertSorted cmp) xs []"

text \<open>
  The grouping loops: a \<open>Map\<close> from a key to the array of the elements with that key, the
  keys in the order of their first element, each array in the order of the input.
\<close>

fun groupPush :: "('a \<Rightarrow> 'k) \<Rightarrow> 'a \<Rightarrow> ('k \<times> 'a list) list \<Rightarrow> ('k \<times> 'a list) list" where
  "groupPush key x [] = [(key x, [x])]"
| "groupPush key x ((k, g) # rest) =
     (if k = key x then (k, g @ [x]) # rest else (k, g) # groupPush key x rest)"

definition groupBy :: "('a \<Rightarrow> 'k) \<Rightarrow> 'a list \<Rightarrow> ('k \<times> 'a list) list" where
  "groupBy key xs = fold (groupPush key) xs []"

text \<open>
  Lines 269-273: each market group is cut to the limit of the market of its first signal
  (\<open>marketSignals[0]?.market || 'other'\<close>).
\<close>

definition firstMarket :: "SignalCandidate list \<Rightarrow> string" where
  "firstMarket marketSignals =
     (case marketSignals of
        [] \<Rightarrow> ''other''
      | s # _ \<Rightarrow> if market s = [] then ''other'' else market s)"

definition capMarketGroups ::
  "ActiveSignalConfig \<Rightarrow> (string \<times> SignalCandidate list) list \<Rightarrow> SignalCandidate list" where
  "capMarketGroups cfg perMarketGroup =
     concat (map (\<lambda>(marketType, marketSignals).
                    take (getPerMatchLimit cfg (firstMarket marketSignals)) marketSignals)
              perMarketGroup)"

record ActiveSignalSummary =
  sum_id :: string
  sum_matchId :: string
  sum_market :: string
  sum_selection :: string
  sum_homeTeam :: string
  sum_awayTeam :: string
  sum_league :: string
  sum_confidence :: real
  sum_minute :: int
  ttlLeft :: int
  sum_state :: SignalState
  sum_reasoning :: string

text \<open>\<open>Math.round\<close> rounds to the nearest integer, a half upwards.\<close>

definition mathRound :: "real \<Rightarrow> int" where
  "mathRound x = \<lfloor>x + 1 / 2\<rfloor>"

definition toSummary :: "int \<Rightarrow> SignalCandidate \<Rightarrow> ActiveSignalSummary" where
  "toSummary now signal =
     \<lparr>sum_id = sid signal, sum_matchId = matchId signal, sum_market = market signal,
      sum_selection = selection signal, sum_homeTeam = homeTeam signal,
      sum_awayTeam = awayTeam signal, sum_league = league signal,
      sum_confidence = confidence signal, sum_minute = sminute signal,
      ttlLeft = mathRound (getTimeLeft now signal), sum_state = state signal,
      sum_reasoning = reasoning signal\<rparr>"




text \<open>Lines 191-231 of \<open>update\<close>: what the call leaves in the two maps.\<close>

definition updateState ::
  "ActiveSignalConfig \<Rightarrow> int \<Rightarrow> ServiceState \<Rightarrow> SignalCandidate list \<Rightarrow> ServiceState" where
  "updateState cfg now svc candidates =
     (let svc1 = fold (\<lambda>candidate s. updateCandidate cfg now s candidate) candidates svc
      in svc1\<lparr>signals := sweepExpired now (signals svc1)\<rparr>)"

text \<open>Lines 233-285 of \<open>update\<close>: the local \<open>finalSignals\<close>.\<close>

definition update_finalSignals ::
  "ActiveSignalConfig \<Rightarrow> int \<Rightarrow> ServiceState \<Rightarrow> SignalCandidate list" where
  "update_finalSignals cfg now svc =
     (let activeSignals = filter (\<lambda>signal. state signal = ACTIVE) (map snd (signals svc));
          groupedByMatch = groupBy matchId activeSignals;
          limitedSignals =
            concat (map (\<lambda>(mid, sigs).
                      capMarketGroups cfg
                        (groupBy (\<lambda>signal. getMarketType (market signal))
                           (arraySort (comparePriority now) sigs)))
                    groupedByMatch)
      in take (maxActive cfg) (arraySort (comparePriority now) limitedSignals))"

definition update ::
  "ActiveSignalConfig \<Rightarrow> int \<Rightarrow> ServiceState \<Rightarrow> SignalCandidate list
     \<Rightarrow> ActiveSignalSummary list \<times> ServiceState" where
  "update cfg now svc candidates =
     (let svc' = updateState cfg now svc candidates
      in (map (toSummary now) (update_finalSignals cfg now svc'), svc'))"




text \<open>
  For stating the properties: the place of a state in the order PRE, CANDIDATE, ACTIVE,
  EXPIRED; the limit of a market bucket; and the signals of one match and one bucket.
\<close>

fun stateRank :: "SignalState \<Rightarrow> nat" where
  "stateRank PRE = 0"
| "stateRank CANDIDATE = 1"
| "stateRank ACTIVE = 2"
| "stateRank EXPIRED = 3"



text \<open>
  For stating the cooldown property: the promotions to ACTIVE that a run of \<open>update\<close> calls
  makes, each with the identity and the clock reading of the call, in the order in which
  they happen. \<open>activatedBy\<close> says that the loop body promotes the candidate to ACTIVE.
\<close>

definition activatedBy ::
  "ActiveSignalConfig \<Rightarrow> int \<Rightarrow> ServiceState \<Rightarrow> SignalCandidate \<Rightarrow> bool" where
  "activatedBy cfg now svc candidate =
     (let c = mergeExisting (signals svc) now candidate
      in (state c = PRE \<or> state c = CANDIDATE)
         \<and> state (fst (promoteSignal cfg now (cooldown svc) c)) = ACTIVE)"

fun activationsOfCall ::
  "ActiveSignalConfig \<Rightarrow> int \<Rightarrow> ServiceState \<Rightarrow> SignalCandidate list \<Rightarrow> (string \<times> int) list"
  where
  "activationsOfCall cfg now svc [] = []"
| "activationsOfCall cfg now svc (c # cs) =
     (if activatedBy cfg now svc c then [(sid c, now)] else [])
     @ activationsOfCall cfg now (updateCandidate cfg now svc c) cs"

fun activationsOfRun ::
  "ActiveSignalConfig \<Rightarrow> ServiceState \<Rightarrow> (int \<times> SignalCandidate list) list
     \<Rightarrow> (string \<times> int) list" where
  "activationsOfRun cfg svc [] = []"
| "activationsOfRun cfg svc ((now, cs) # calls) =
     activationsOfCall cfg now svc cs
     @ activationsOfRun cfg (snd (update cfg now svc cs)) calls"

text \<open>A candidate as \<open>createSignalCandidate\<close> builds it, for the examples.\<close>

definition newCandidate :: "string \<Rightarrow> string \<Rightarrow> real \<Rightarrow> int \<Rightarrow> SignalCandidate" where
  "newCandidate m mk conf now =
     \<lparr>sid = m @ '':'' @ mk, matchId = m, market = mk, selection = ''yes'',
      homeTeam = ''Home'', awayTeam = ''Away'', league = ''League'', confidence = conf,
      sminute = 0, liquidityOk = True, ttlSeconds = 900, state = PRE, reasoning = ''r'',
      createdTs = now, lastUpdateTs = now, odds = None, bookmaker = None,
      isValueBet = Some False, impliedProbability = None, valueScore = None, meta = []\<rparr>"

text \<open>
  \<open>gapsRespected c m evs\<close>: going through a log of promotions with the map \<open>m\<close> of the
  last promotion of every identity, each promotion of an identity that has an earlier
  one, stamped \<open>t0\<close>, comes at least \<open>c\<close> milliseconds after it, unless \<open>t0\<close> is 0.
\<close>

fun gapsRespected :: "real \<Rightarrow> (string \<rightharpoonup> int) \<Rightarrow> (string \<times> int) list \<Rightarrow> bool" where
  "gapsRespected c m [] = True"
| "gapsRespected c m ((k, t) # evs) =
     ((case m k of None \<Rightarrow> True | Some t0 \<Rightarrow> t0 = 0 \<or> c \<le> real_of_int (t - t0))
      \<and> gapsRespected c (m(k \<mapsto> t)) evs)"

definition applyLog :: "(string \<rightharpoonup> int) \<Rightarrow> (string \<times> int) list \<Rightarrow> (string \<rightharpoonup> int)" where
  "applyLog m evs = fold (\<lambda>(k, t) m'. m'(k \<mapsto> t)) evs m"

text \<open>
  A run for the examples: a candidate of match M1 in the market \<open>over_under\<close> comes in at
  second 1 and again at second 70, when it is promoted to ACTIVE; at second 1000 its time
  to live (900 seconds) has run out and it is deleted; a new candidate with the same
  identity comes in at second 1001 and again at second 1070.
\<close>

definition exampleCandidate :: "int \<Rightarrow> SignalCandidate" where
  "exampleCandidate t = newCandidate ''M1'' ''over_under'' 70 t"

definition exampleRun :: "(int \<times> SignalCandidate list) list" where
  "exampleRun =
     [(1000, [exampleCandidate 1000]), (70000, [exampleCandidate 70000]), (1000000, []),
      (1001000, [exampleCandidate 1001000]), (1070000, [exampleCandidate 1070000])]"

definition exampleService :: ServiceState where
  "exampleService = snd (update defaultConfig 1000 emptyService [exampleCandidate 1000])"





section \<open>Confidence agent (server/services/rl-agent.ts)\<close>

text \<open>
  Numbers are \<open>real\<close>, actions are \<open>int\<close> (the source can produce the index -1), clock
  readings are \<open>int\<close> milliseconds. A key of the Q-tables is the state vector with every
  component rounded to hundredths, which \<open>stateToKey\<close> joins into a string; the key is
  modelled as the list of the rounded components, counted in hundredths.
\<close>

record RLAgentConfig =
  learningRate :: real
  epsilon :: real
  epsilonDecay :: real
  minEpsilon :: real
  discountFactor :: real
  bufferSize :: nat
  batchSize :: nat
  targetUpdateFrequency :: nat
  prioritizedReplay :: bool
  doubleQLearning :: bool
  modelSaveFrequency :: int
  convergenceThreshold :: real

record PendingStateAction =
  p_state :: "real list"
  p_action :: int
  p_timestamp :: int
  p_matchId :: "string option"
  originalConfidence :: "real option"
  p_market :: "string option"

text \<open>
  The fields of the agent that \<open>evaluateSignal\<close> and the reward of \<open>updateFromResult\<close>
  read or write. An entry of \<open>convergenceHistory\<close> is \<open>None\<close> where the source pushes
  \<open>NaN\<close>.
\<close>

record RLAgent =
  qTable :: "int list \<rightharpoonup> real list"
  targetQTable :: "int list \<rightharpoonup> real list"
  config :: RLAgentConfig
  convergenceHistory :: "real option list"
  pendingStateActions :: "(string \<times> PendingStateAction) list"

definition actionCount :: nat where
  "actionCount = 5"

definition defaultAgentConfig :: RLAgentConfig where
  "defaultAgentConfig =
     \<lparr>learningRate = 1 / 1000, epsilon = 3 / 10, epsilonDecay = 9995 / 10000,
      minEpsilon = 5 / 100, discountFactor = 95 / 100, bufferSize = 50000, batchSize = 64,
      targetUpdateFrequency = 1000, prioritizedReplay = True, doubleQLearning = True,
      modelSaveFrequency = 10000, convergenceThreshold = 1 / 100\<rparr>"

definition newAgent :: RLAgent where
  "newAgent =
     \<lparr>qTable = Map.empty, targetQTable = Map.empty, config = defaultAgentConfig,
      convergenceHistory = [], pendingStateActions = []\<rparr>"

definition stateToKey :: "real list \<Rightarrow> int list" where
  "stateToKey st = map (\<lambda>s. mathRound (s * 100)) st"

text \<open>\<open>getQValues\<close> creates the row of a state that has none.\<close>

definition getQValues :: "RLAgent \<Rightarrow> real list \<Rightarrow> real list \<times> RLAgent" where
  "getQValues agent st =
     (let key = stateToKey st
      in case qTable agent key of
           None \<Rightarrow> (replicate actionCount 0,
                    agent\<lparr>qTable := (qTable agent)(key \<mapsto> replicate actionCount 0)\<rparr>)
         | Some row \<Rightarrow> (row, agent))"

text \<open>
  \<open>Math.max(...qValues)\<close> is minus infinity for an empty array (\<open>None\<close> here), and
  \<open>indexOf\<close> is -1 when the value is not in the array.
\<close>

fun mathMax :: "real list \<Rightarrow> real option" where
  "mathMax [] = None"
| "mathMax (x # xs) = Some (fold max xs x)"

fun indexOf :: "real \<Rightarrow> real list \<Rightarrow> int" where
  "indexOf v [] = - 1"
| "indexOf v (x # xs) =
     (if x = v then 0 else (let i = indexOf v xs in if i < 0 then - 1 else i + 1))"

definition indexOfMax :: "real list \<Rightarrow> int" where
  "indexOfMax qValues = (case mathMax qValues of None \<Rightarrow> - 1 | Some mx \<Rightarrow> indexOf mx qValues)"

text \<open>
  \<open>selectAction\<close>: \<open>r1\<close> and \<open>r2\<close> are the two values that \<open>Math.random()\<close> returns, the
  first for the epsilon draw, the second for the random action.
\<close>

definition selectAction :: "RLAgent \<Rightarrow> real list \<Rightarrow> real \<Rightarrow> real \<Rightarrow> int \<times> RLAgent" where
  "selectAction agent st r1 r2 =
     (if r1 < epsilon (config agent) then (\<lfloor>r2 * real actionCount\<rfloor>, agent)
      else (let (qValues, agent') = getQValues agent st
            in (indexOfMax qValues, agent')))"

record Analysis =
  a_confidence :: real
  a_reasoning :: string
  a_market :: "string option"

record Evaluation =
  shouldGenerate :: bool
  adjustedConfidence :: real
  e_reasoning :: string
  signalId :: "string option"

text \<open>
  \<open>storeStateAction\<close>: \<open>newId\<close> is the identifier that the source builds from the clock
  reading and a random string.
\<close>

definition storeStateAction ::
  "RLAgent \<Rightarrow> real list \<Rightarrow> int \<Rightarrow> Analysis \<Rightarrow> string option \<Rightarrow> int \<Rightarrow> string
     \<Rightarrow> string \<times> RLAgent" where
  "storeStateAction agent st action analysis mId now newId =
     (let pending =
            AList.update newId
              \<lparr>p_state = st, p_action = action, p_timestamp = now, p_matchId = mId,
               originalConfidence = Some (a_confidence analysis),
               p_market = a_market analysis\<rparr>
              (pendingStateActions agent);
          cutoff = now - 24 * 60 * 60 * 1000;
          entriesToDelete = map fst (filter (\<lambda>(k, a). p_timestamp a < cutoff) pending)
      in (newId, agent\<lparr>pendingStateActions := fold AList.delete entriesToDelete pending\<rparr>))"

definition trackDecisionQuality :: "RLAgent \<Rightarrow> real list \<Rightarrow> int \<Rightarrow> RLAgent" where
  "trackDecisionQuality agent st action =
     (let (qValues, agent') = getQValues agent st;
          actionValue = (if 0 \<le> action \<and> nat action < length qValues
                         then Some (qValues ! nat action) else None);
          confidenceValue =
            (case mathMax qValues of
               None \<Rightarrow> Some (1 / 2)
             | Some maxValue \<Rightarrow>
                 if maxValue > 0 then map_option (\<lambda>v. v / maxValue) actionValue
                 else Some (1 / 2));
          history = convergenceHistory agent' @ [confidenceValue]
      in agent'\<lparr>convergenceHistory :=
                  (if length history > 1000 then tl history else history)\<rparr>)"

text \<open>
  \<open>evaluateSignal\<close>. \<open>extractFeatures\<close> reads its arguments and the performance history
  and writes nothing; its result is the argument \<open>features\<close>, \<open>None\<close> when it throws
  (the \<open>catch\<close> branch then answers).
\<close>

definition evaluateSignal ::
  "RLAgent \<Rightarrow> Analysis \<Rightarrow> real list option \<Rightarrow> string option \<Rightarrow> int \<Rightarrow> real \<Rightarrow> real \<Rightarrow> string
     \<Rightarrow> Evaluation \<times> RLAgent" where
  "evaluateSignal agent analysis features mId now r1 r2 newId =
     (case features of
        None \<Rightarrow>
          (\<lparr>shouldGenerate = True, adjustedConfidence = a_confidence analysis,
            e_reasoning = a_reasoning analysis, signalId = None\<rparr>, agent)
      | Some st \<Rightarrow>
          (let (action, agent1) = selectAction agent st r1 r2;
               c = a_confidence analysis;
               r = a_reasoning analysis;
               (gen, adjusted, reason) =
                 (if action = 0 then
                    (False, c, r @ '' (RL Agent: Signal rejected - high risk pattern detected)'')
                  else if action = 1 then
                    (True, min (c * (6 / 10)) 50,
                     r @ '' (RL Agent: Very low confidence - experimental signal)'')
                  else if action = 2 then
                    (True, min (c * (8 / 10)) 65,
                     r @ '' (RL Agent: Low confidence - conservative approach)'')
                  else if action = 3 then
                    (True, min (c * (95 / 100)) 80,
                     r @ '' (RL Agent: Medium confidence - standard signal)'')
                  else if action = 4 then
                    (True, min (c * (115 / 100)) 95,
                     r @ '' (RL Agent: High confidence - strong pattern identified)'')
                  else (False, c, r));
               (newSignalId, agent2) = storeStateAction agent1 st action analysis mId now newId;
               agent3 = trackDecisionQuality agent2 st action
           in (\<lparr>shouldGenerate = gen, adjustedConfidence = adjusted, e_reasoning = reason,
                signalId = Some newSignalId\<rparr>, agent3)))"

datatype SignalResult = Won | Lost | Expired

text \<open>
  \<open>calculateAdvancedReward\<close>: \<open>profit\<close> is \<open>None\<close> when the argument is left out, and
  \<open>stateAction\<close> is the pending entry. The tests \<open>profit && ...\<close> and
  \<open>stateAction?.originalConfidence\<close> fail for a missing value and for 0.
\<close>

definition calculateAdvancedReward ::
  "SignalResult \<Rightarrow> real option \<Rightarrow> PendingStateAction option \<Rightarrow> real" where
  "calculateAdvancedReward signalResult profit stateAction =
     (let baseReward =
            (case signalResult of
               Won \<Rightarrow>
                 (case profit of
                    Some p \<Rightarrow> if p \<noteq> 0 \<and> p > 0 then 1 + min (p / 100) (1 / 2) else 1
                  | None \<Rightarrow> 1)
             | Lost \<Rightarrow>
                 (case profit of
                    Some p \<Rightarrow> if p \<noteq> 0 \<and> p < 0 then - 1 + max (p / 100) (- (1 / 2)) else - 1
                  | None \<Rightarrow> - 1)
             | Expired \<Rightarrow> - (2 / 10))
      in case Option.bind stateAction originalConfidence of
           None \<Rightarrow> baseReward
         | Some oc \<Rightarrow>
             if oc \<noteq> 0 then
               (let confidenceValue = oc / 100
                in if signalResult = Lost \<and> confidenceValue > 8 / 10
                     then baseReward - 3 / 10
                   else if signalResult = Won \<and> confidenceValue < 6 / 10
                     then baseReward + 2 / 10
                   else baseReward)
             else baseReward)"

text \<open>
  Lines 448-456 of \<open>updateFromResult\<close>: the local \<open>reward\<close>, which the call hands to the
  update of the Q-table, to the stored experience and to the performance history;
  \<open>None\<close> when the identifier has no pending entry and the call returns at once.
\<close>

definition updateFromResult_reward ::
  "RLAgent \<Rightarrow> string \<Rightarrow> SignalResult \<Rightarrow> real option \<Rightarrow> real option" where
  "updateFromResult_reward agent sId signalResult profit =
     (case map_of (pendingStateActions agent) sId of
        None \<Rightarrow> None
      | Some stateAction \<Rightarrow>
          Some (calculateAdvancedReward signalResult profit (Some stateAction)))"

text \<open>For the examples: an analysis with a confidence, and a state vector.\<close>

definition exampleAnalysis :: "real \<Rightarrow> Analysis" where
  "exampleAnalysis c = \<lparr>a_confidence = c, a_reasoning = ''r'', a_market = Some ''btts''\<rparr>"

definition exampleState :: "real list" where
  "exampleState = [9 / 10, 1 / 2, 2 / 5]"

section \<open>Properties of the minute normalizer\<close>

lemma applyLastMinuteCache_le:
  "fst (applyLastMinuteCache cfg cache k raw now) \<le> max 130 raw"
  by (auto simp: applyLastMinuteCache_def Let_def split: option.splits)

lemma overrideGuard_le:
  "c \<le> max 130 raw \<Longrightarrow> overrideGuard p raw stale c now \<le> max 130 raw"
  by (auto simp: overrideGuard_def Let_def split: option.splits)

lemma normalizeMinute_le: "fst (normalizeMinute cfg st k raw now) \<le> max 130 raw"
  using overrideGuard_le [OF applyLastMinuteCache_le]
  by (simp add: normalizeMinute_def Let_def split: prod.splits)
    (metis fst_conv)

lemma startingAtMinute_le: "startingAtMinute cfg m now \<le> 130"
  by (auto simp: startingAtMinute_def Let_def split: option.splits)

lemma firstEventMinute_mem: "firstEventMinute es = Some v \<Longrightarrow> Some v \<in> set es"
  by (induction es rule: firstEventMinute.induct) (auto split: if_splits)

lemma extractMinute_cases:
  "extractMinute cfg m now \<le> 130 \<or> Some (extractMinute cfg m now) \<in> set (feedMinutes m)"
proof -
  have "extractMinute cfg m now = startingAtMinute cfg m now
        \<or> Some (extractMinute cfg m now) \<in> set (feedMinutes m)"
    by (auto simp: extractMinute_def feedMinutes_def split: option.splits
        dest: firstEventMinute_mem)
  then show ?thesis
    using startingAtMinute_le [of cfg m now] by auto
qed


lemma normalizeMinute_fst:
  "fst (normalizeMinute cfg st k raw now) =
     overrideGuard (lastNormalizedMinute st k) raw
       (fst (trackRawChange (lastRawMinuteChange st) k raw now))
       (fst (applyLastMinuteCache cfg (lastMinuteCache st) k raw now)) now"
  by (simp add: normalizeMinute_def Let_def case_prod_beta)

lemma normalizeMinute_snd:
  "snd (normalizeMinute cfg st k raw now) =
     \<lparr>lastMinuteCache = snd (applyLastMinuteCache cfg (lastMinuteCache st) k raw now),
      lastNormalizedMinute =
        trackNormalized (lastNormalizedMinute st) k (fst (normalizeMinute cfg st k raw now)) now,
      lastRawMinuteChange = snd (trackRawChange (lastRawMinuteChange st) k raw now)\<rparr>"
  by (simp add: normalizeMinute_def Let_def case_prod_beta)

lemma applyLastMinuteCache_pos:
  "raw > 0 \<Longrightarrow> fst (applyLastMinuteCache cfg cache k raw now) = raw"
  by (simp add: applyLastMinuteCache_def split: option.splits)

lemma overrideGuard_ge_cached:
  "c > 0 \<Longrightarrow> c \<le> overrideGuard p raw stale c now"
  by (simp add: overrideGuard_def Let_def split: option.splits)

lemma normalizeMinute_ge_raw:
  "raw > 0 \<Longrightarrow> raw \<le> fst (normalizeMinute cfg st k raw now)"
  using overrideGuard_ge_cached [of raw]
  by (simp add: normalizeMinute_fst applyLastMinuteCache_pos)

lemma trackRawChange_fst_local:
  "tr k = tr' k \<Longrightarrow>
     fst (trackRawChange tr k raw now) = fst (trackRawChange tr' k raw now)"
  by (simp add: trackRawChange_def split: option.splits)

lemma applyLastMinuteCache_fst_local:
  "cache k = cache' k \<Longrightarrow>
     fst (applyLastMinuteCache cfg cache k raw now)
     = fst (applyLastMinuteCache cfg cache' k raw now)"
  by (simp add: applyLastMinuteCache_def Let_def split: option.splits)

lemma normalizeMinute_local:
  "sameMatchState k a b \<Longrightarrow>
     fst (normalizeMinute cfg a k raw now) = fst (normalizeMinute cfg b k raw now)"
  using trackRawChange_fst_local [of "lastRawMinuteChange a" k "lastRawMinuteChange b"]
    applyLastMinuteCache_fst_local [of "lastMinuteCache a" k "lastMinuteCache b"]
  by (simp add: normalizeMinute_fst sameMatchState_def)

lemma normalizeMinute_frame:
  "k' \<noteq> k \<Longrightarrow> sameMatchState k (snd (normalizeMinute cfg st k' raw now)) st"
  by (simp add: normalizeMinute_snd sameMatchState_def applyLastMinuteCache_def
      trackRawChange_def trackNormalized_def Let_def split: option.splits)

text \<open>What \<open>trackNormalized\<close> leaves in the map for the match.\<close>

lemma trackNormalized_holds:
  assumes "\<And>e. prevMap k = Some e \<Longrightarrow> timestamp e \<le> t" and "0 < v"
  shows "\<exists>e. trackNormalized prevMap k v t k = Some e \<and> v \<le> minute e \<and> timestamp e \<le> t"
  using assms by (auto simp: trackNormalized_def split: option.splits)

lemma trackNormalized_stamp:
  assumes "\<And>e. prevMap k = Some e \<Longrightarrow> timestamp e \<le> t"
    and "trackNormalized prevMap k v t k = Some e'"
  shows "timestamp e' \<le> t"
  using assms by (auto simp: trackNormalized_def split: option.splits if_splits)

lemma overrideGuard_ge_prev:
  assumes "minute e > 0" "raw = 0 \<or> stale" "timestamp e \<le> now"
  shows "min 130 (minute e) \<le> overrideGuard (Some e) raw stale c now"
proof -
  have "0 \<le> (now - timestamp e) div 60000"
    using assms(3) by (simp add: pos_imp_zdiv_nonneg_iff)
  then show ?thesis
    using assms(1,2) by (auto simp: overrideGuard_def Let_def)
qed

lemma overrideGuard_nonneg:
  assumes "0 \<le> raw" and "\<And>e. p = Some e \<Longrightarrow> timestamp e \<le> now"
  shows "0 \<le> overrideGuard p raw stale c now"
proof (cases p)
  case None
  then show ?thesis using assms(1) by (simp add: overrideGuard_def)
next
  case (Some e)
  then have "0 \<le> (now - timestamp e) div 60000"
    using assms(2) by (simp add: pos_imp_zdiv_nonneg_iff)
  then show ?thesis
    using Some assms(1) by (auto simp: overrideGuard_def Let_def)
qed

lemma overrideGuard_fresh:
  "0 < raw \<Longrightarrow> overrideGuard p raw False raw now = raw"
  by (simp add: overrideGuard_def split: option.splits)

text \<open>A repeated raw minute that is not stale now was not stale at the call before.\<close>

lemma trackRawChange_not_stale_before:
  assumes "t1 \<le> t2"
    and "\<not> fst (trackRawChange (snd (trackRawChange tr k raw t1)) k raw t2)"
  shows "\<not> fst (trackRawChange tr k raw t1)"
  using assms
  by (auto simp: trackRawChange_def STALE_MINUTE_THRESHOLD_MS_def
      split: option.splits if_splits)

lemma normalizeMinute_two_calls:
  assumes ahead: "normalizedNotAhead st k t1"
    and t: "t1 \<le> t2"
    and r1: "0 \<le> raw1" "raw1 \<le> 130"
    and r2: "0 \<le> raw2"
    and kind: "raw2 = 0 \<or> raw2 = raw1 \<or> fst (normalizeMinute cfg st k raw1 t1) \<le> raw2"
  shows "fst (normalizeMinute cfg st k raw1 t1)
         \<le> fst (normalizeMinute cfg (snd (normalizeMinute cfg st k raw1 t1)) k raw2 t2)"
proof -
  define o1 where "o1 = fst (normalizeMinute cfg st k raw1 t1)"
  define st1 where "st1 = snd (normalizeMinute cfg st k raw1 t1)"
  define o2 where "o2 = fst (normalizeMinute cfg st1 k raw2 t2)"
  define stale2 where "stale2 = fst (trackRawChange (lastRawMinuteChange st1) k raw2 t2)"
  define c2 where "c2 = fst (applyLastMinuteCache cfg (lastMinuteCache st1) k raw2 t2)"
  have prev: "\<And>e. lastNormalizedMinute st k = Some e \<Longrightarrow> timestamp e \<le> t1"
    using ahead by (simp add: normalizedNotAhead_def)
  have norm1: "lastNormalizedMinute st1 k = trackNormalized (lastNormalizedMinute st) k o1 t1 k"
    by (simp add: st1_def o1_def normalizeMinute_snd)
  have raw1_tr: "lastRawMinuteChange st1 = snd (trackRawChange (lastRawMinuteChange st) k raw1 t1)"
    by (simp add: st1_def normalizeMinute_snd)
  have o2_eq: "o2 = overrideGuard (lastNormalizedMinute st1 k) raw2 stale2 c2 t2"
    by (simp add: o2_def stale2_def c2_def normalizeMinute_fst)
  have stamp1: "\<And>e. lastNormalizedMinute st1 k = Some e \<Longrightarrow> timestamp e \<le> t2"
    using trackNormalized_stamp [of "lastNormalizedMinute st" k t1 o1] prev t norm1
    by fastforce
  have o1_cap: "o1 \<le> 130"
    using normalizeMinute_le [of cfg st k raw1 t1] r1 by (simp add: o1_def)
  have o2_nonneg: "0 \<le> o2"
    unfolding o2_eq using r2 stamp1 by (rule overrideGuard_nonneg)
  have guarded: "o1 \<le> o2" if pos: "0 < o1" and g: "raw2 = 0 \<or> stale2"
  proof -
    obtain e where e: "lastNormalizedMinute st1 k = Some e" "o1 \<le> minute e" "timestamp e \<le> t1"
      using trackNormalized_holds [of "lastNormalizedMinute st" k t1 o1] prev pos norm1
      by auto
    have "min 130 (minute e) \<le> o2"
      unfolding o2_eq e(1)
      using pos e(2,3) g t by (intro overrideGuard_ge_prev) auto
    then show ?thesis using e(2) o1_cap by simp
  qed
  have "o1 \<le> o2"
  proof (cases "0 < o1")
    case False
    then show ?thesis using o2_nonneg by simp
  next
    case pos: True
    show ?thesis
    proof (cases "raw2 = 0 \<or> stale2")
      case True
      then show ?thesis using guarded pos by simp
    next
      case False
      then have fresh: "0 < raw2" "\<not> stale2" using r2 by auto
      have ge2: "raw2 \<le> o2"
        using normalizeMinute_ge_raw [OF fresh(1), of cfg st1 k t2] by (simp add: o2_def)
      from kind fresh(1) consider "raw2 = raw1" | "o1 \<le> raw2"
        by (auto simp: o1_def)
      then show ?thesis
      proof cases
        case 1
        have "\<not> fst (trackRawChange (lastRawMinuteChange st) k raw1 t1)"
          using fresh(2) t
          by (intro trackRawChange_not_stale_before [of t1 t2])
            (simp_all add: stale2_def raw1_tr 1)
        then have "o1 = raw1"
          using fresh(1) 1
          by (simp add: o1_def normalizeMinute_fst applyLastMinuteCache_pos overrideGuard_fresh)
        then show ?thesis using ge2 1 by simp
      next
        case 2
        then show ?thesis using ge2 by simp
      qed
    qed
  qed
  then show ?thesis by (simp add: o1_def o2_def st1_def)
qed

lemma normalizedNotAhead_step:
  assumes "normalizedNotAhead st k t" "t \<le> now"
  shows "normalizedNotAhead (snd (normalizeMinute cfg st k' raw now)) k now"
  using assms
  by (auto simp: normalizedNotAhead_def normalizeMinute_snd trackNormalized_def
      split: option.splits if_splits)

lemma normalizedNotAhead_empty: "normalizedNotAhead emptyAdapterState k t"
  by (simp add: normalizedNotAhead_def emptyAdapterState_def)

lemma normalizedNotAhead_mono:
  "normalizedNotAhead st k t \<Longrightarrow> t \<le> t' \<Longrightarrow> normalizedNotAhead st k t'"
  by (auto simp: normalizedNotAhead_def split: option.splits)

lemma normalizedNotAhead_cong:
  "sameMatchState k a b \<Longrightarrow> normalizedNotAhead b k t \<Longrightarrow> normalizedNotAhead a k t"
  by (simp add: normalizedNotAhead_def sameMatchState_def)

subsection \<open>Monotonic minute\<close>

text \<open>
  C1, as stated, fails: a call whose raw minute is a new positive value returns that value,
  also when it is lower than the minute returned before. The feed states minute 27, then
  no minute 61 seconds later (the guard answers 28), then minute 27 again one second
  later: the calls return 27, 28 and 27, all within 90 seconds of the cache entry.
\<close>

theorem normalizeSmMatch_minute_regresses:
  "\<not> fst (normalizeSmMatch defaultAdapterConfig
          (snd (normalizeSmMatch defaultAdapterConfig emptyAdapterState
                 ((barePayload ''M1'')\<lparr>time_minute := Some 27\<rparr>) 1000))
          (barePayload ''M1'') 62000)
     \<le> fst (normalizeSmMatch defaultAdapterConfig
          (snd (normalizeSmMatch defaultAdapterConfig
                 (snd (normalizeSmMatch defaultAdapterConfig emptyAdapterState
                        ((barePayload ''M1'')\<lparr>time_minute := Some 27\<rparr>) 1000))
                 (barePayload ''M1'') 62000))
          ((barePayload ''M1'')\<lparr>time_minute := Some 27\<rparr>) 63000)"
  by (simp add: normalizeSmMatch_def normalizeMinute_def extractMinute_def barePayload_def
      emptyAdapterState_def defaultAdapterConfig_def trackRawChange_def
      applyLastMinuteCache_def overrideGuard_def trackNormalized_def startingAtMinute_def)

text \<open>The same with a feed that states minute 50 and, one second later, minute 30.\<close>

lemma normalizeSmMatch_follows_lower_raw:
  "fst (normalizeSmMatch defaultAdapterConfig emptyAdapterState
          ((barePayload ''M1'')\<lparr>time_minute := Some 50\<rparr>) 1000) = 50
   \<and> fst (normalizeSmMatch defaultAdapterConfig
          (snd (normalizeSmMatch defaultAdapterConfig emptyAdapterState
                 ((barePayload ''M1'')\<lparr>time_minute := Some 50\<rparr>) 1000))
          ((barePayload ''M1'')\<lparr>time_minute := Some 30\<rparr>) 2000) = 30"
  by (simp add: normalizeSmMatch_def normalizeMinute_def extractMinute_def barePayload_def
      emptyAdapterState_def defaultAdapterConfig_def trackRawChange_def
      applyLastMinuteCache_def overrideGuard_def trackNormalized_def)

text \<open>
  C1, as amended. Take two calls of \<open>normalizeSmMatch\<close> for the same match at clock
  readings \<open>t1 \<le> t2\<close>, with any calls for other matches in between (\<open>st'\<close> holds for this
  match what the first call left), raw minutes that are not negative and the first one at
  most 130. If the raw minute of the second call is 0, or repeats the raw minute of the
  first call, or is not below the minute the first call returned, then the second call
  returns at least the minute the first call returned. No bound on the elapsed time is
  needed. The stamp condition \<open>normalizedNotAhead\<close> holds for the empty state and is
  handed on: it holds again for the state and the reading of the second call.
\<close>

theorem normalizeSmMatch_minute_non_decreasing:
  assumes "matchKey m2 = matchKey m1"
    and "normalizedNotAhead st (matchKey m1) t1"
    and "t1 \<le> t2"
    and "0 \<le> extractMinute cfg m1 t1"
    and "extractMinute cfg m1 t1 \<le> 130"
    and "0 \<le> extractMinute cfg m2 t2"
    and "extractMinute cfg m2 t2 = 0
         \<or> extractMinute cfg m2 t2 = extractMinute cfg m1 t1
         \<or> fst (normalizeSmMatch cfg st m1 t1) \<le> extractMinute cfg m2 t2"
    and "sameMatchState (matchKey m1) st' (snd (normalizeSmMatch cfg st m1 t1))"
  shows "fst (normalizeSmMatch cfg st m1 t1) \<le> fst (normalizeSmMatch cfg st' m2 t2)
         \<and> normalizedNotAhead st' (matchKey m2) t2"
proof -
  let ?k = "matchKey m1"
  let ?st1 = "snd (normalizeMinute cfg st ?k (extractMinute cfg m1 t1) t1)"
  have same: "sameMatchState ?k st' ?st1"
    using assms(8) by (simp add: normalizeSmMatch_def)
  have "fst (normalizeMinute cfg st ?k (extractMinute cfg m1 t1) t1)
        \<le> fst (normalizeMinute cfg ?st1 ?k (extractMinute cfg m2 t2) t2)"
    using assms(2-7) by (intro normalizeMinute_two_calls) (simp_all add: normalizeSmMatch_def)
  then have le: "fst (normalizeSmMatch cfg st m1 t1) \<le> fst (normalizeSmMatch cfg st' m2 t2)"
    using normalizeMinute_local [OF same] assms(1) by (simp add: normalizeSmMatch_def)
  have "normalizedNotAhead ?st1 ?k t1"
    by (rule normalizedNotAhead_step [OF assms(2) order_refl])
  then have "normalizedNotAhead st' ?k t2"
    using same assms(3) normalizedNotAhead_cong normalizedNotAhead_mono by blast
  with le show ?thesis by (simp add: assms(1))
qed

text \<open>
  The raw minute stuck at 27: the second call, 63 seconds after the first, is stale and
  returns 28.
\<close>

theorem normalizeSmMatch_minute_non_decreasing_witness:
  "fst (normalizeSmMatch defaultAdapterConfig emptyAdapterState
          ((barePayload ''M1'')\<lparr>time_minute := Some 27\<rparr>) 1000) = 27
   \<and> fst (normalizeSmMatch defaultAdapterConfig
          (snd (normalizeSmMatch defaultAdapterConfig emptyAdapterState
                 ((barePayload ''M1'')\<lparr>time_minute := Some 27\<rparr>) 1000))
          ((barePayload ''M1'')\<lparr>time_minute := Some 27\<rparr>) 64000) = 28
   \<and> fst (normalizeSmMatch defaultAdapterConfig emptyAdapterState
          ((barePayload ''M1'')\<lparr>time_minute := Some 27\<rparr>) 1000)
     \<le> fst (normalizeSmMatch defaultAdapterConfig
          (snd (normalizeSmMatch defaultAdapterConfig emptyAdapterState
                 ((barePayload ''M1'')\<lparr>time_minute := Some 27\<rparr>) 1000))
          ((barePayload ''M1'')\<lparr>time_minute := Some 27\<rparr>) 64000)"
proof -
  let ?p = "(barePayload ''M1'')\<lparr>time_minute := Some 27\<rparr>"
  let ?st1 = "snd (normalizeSmMatch defaultAdapterConfig emptyAdapterState ?p 1000)"
  have raw: "extractMinute defaultAdapterConfig ?p 1000 = 27"
    "extractMinute defaultAdapterConfig ?p 64000 = 27"
    by (simp_all add: extractMinute_def barePayload_def)
  have first: "fst (normalizeSmMatch defaultAdapterConfig emptyAdapterState ?p 1000) = 27"
    by (simp add: normalizeSmMatch_def normalizeMinute_def extractMinute_def barePayload_def
        emptyAdapterState_def defaultAdapterConfig_def trackRawChange_def
        applyLastMinuteCache_def overrideGuard_def trackNormalized_def)
  have second: "fst (normalizeSmMatch defaultAdapterConfig ?st1 ?p 64000) = 28"
    by (simp add: normalizeSmMatch_def normalizeMinute_def extractMinute_def barePayload_def
        emptyAdapterState_def defaultAdapterConfig_def trackRawChange_def
        applyLastMinuteCache_def overrideGuard_def trackNormalized_def
        STALE_MINUTE_THRESHOLD_MS_def)
  have "fst (normalizeSmMatch defaultAdapterConfig emptyAdapterState ?p 1000)
        \<le> fst (normalizeSmMatch defaultAdapterConfig ?st1 ?p 64000)"
    using normalizeSmMatch_minute_non_decreasing
      [of ?p ?p emptyAdapterState 1000 64000 defaultAdapterConfig ?st1]
    by (simp add: raw normalizedNotAhead_empty sameMatchState_def)
  with first second show ?thesis by simp
qed

text \<open>
  The conditions on the raw minutes are needed. A stated minute above 130 followed by a
  missing minute: the guard answers 130. A negative stated minute that repeats: the cache
  answers while its entry is fresh, the raw minute afterwards.
\<close>

lemma normalizeSmMatch_regresses_above_cap:
  "fst (normalizeSmMatch defaultAdapterConfig emptyAdapterState
          ((barePayload ''M1'')\<lparr>time_minute := Some 135\<rparr>) 1000) = 135
   \<and> fst (normalizeSmMatch defaultAdapterConfig
          (snd (normalizeSmMatch defaultAdapterConfig emptyAdapterState
                 ((barePayload ''M1'')\<lparr>time_minute := Some 135\<rparr>) 1000))
          (barePayload ''M1'') 2000) = 130"
  by (simp add: normalizeSmMatch_def normalizeMinute_def extractMinute_def barePayload_def
      emptyAdapterState_def defaultAdapterConfig_def trackRawChange_def
      applyLastMinuteCache_def overrideGuard_def trackNormalized_def startingAtMinute_def)

lemma normalizeSmMatch_regresses_negative:
  "fst (normalizeSmMatch defaultAdapterConfig
          (snd (normalizeSmMatch defaultAdapterConfig emptyAdapterState
                 ((barePayload ''M1'')\<lparr>time_minute := Some 27\<rparr>) 1000))
          ((barePayload ''M1'')\<lparr>time_minute := Some (- 5)\<rparr>) 10000) = 27
   \<and> fst (normalizeSmMatch defaultAdapterConfig
          (snd (normalizeSmMatch defaultAdapterConfig
                 (snd (normalizeSmMatch defaultAdapterConfig emptyAdapterState
                        ((barePayload ''M1'')\<lparr>time_minute := Some 27\<rparr>) 1000))
                 ((barePayload ''M1'')\<lparr>time_minute := Some (- 5)\<rparr>) 10000))
          ((barePayload ''M1'')\<lparr>time_minute := Some (- 5)\<rparr>) 100000) = - 5"
  by (simp add: normalizeSmMatch_def normalizeMinute_def extractMinute_def barePayload_def
      emptyAdapterState_def defaultAdapterConfig_def trackRawChange_def
      applyLastMinuteCache_def overrideGuard_def trackNormalized_def
      STALE_MINUTE_THRESHOLD_MS_def)

text \<open>
  The raw minute stuck at 27 and polled 33, 63 and 93 seconds after it was first seen:
  the calls return 27, 28 and 28.
\<close>

lemma normalizeSmMatch_stuck_at_27:
  "map fst
     [normalizeSmMatch defaultAdapterConfig
        (snd (normalizeSmMatch defaultAdapterConfig emptyAdapterState
               ((barePayload ''M1'')\<lparr>time_minute := Some 27\<rparr>) 1000))
        ((barePayload ''M1'')\<lparr>time_minute := Some 27\<rparr>) 34000,
      normalizeSmMatch defaultAdapterConfig
        (snd (normalizeSmMatch defaultAdapterConfig
               (snd (normalizeSmMatch defaultAdapterConfig emptyAdapterState
                      ((barePayload ''M1'')\<lparr>time_minute := Some 27\<rparr>) 1000))
               ((barePayload ''M1'')\<lparr>time_minute := Some 27\<rparr>) 34000))
        ((barePayload ''M1'')\<lparr>time_minute := Some 27\<rparr>) 64000,
      normalizeSmMatch defaultAdapterConfig
        (snd (normalizeSmMatch defaultAdapterConfig
               (snd (normalizeSmMatch defaultAdapterConfig
                      (snd (normalizeSmMatch defaultAdapterConfig emptyAdapterState
                             ((barePayload ''M1'')\<lparr>time_minute := Some 27\<rparr>) 1000))
                      ((barePayload ''M1'')\<lparr>time_minute := Some 27\<rparr>) 34000))
               ((barePayload ''M1'')\<lparr>time_minute := Some 27\<rparr>) 64000))
        ((barePayload ''M1'')\<lparr>time_minute := Some 27\<rparr>) 94000]
   = [27, 28, 28]"
  by (simp add: normalizeSmMatch_def normalizeMinute_def extractMinute_def barePayload_def
      emptyAdapterState_def defaultAdapterConfig_def trackRawChange_def
      applyLastMinuteCache_def overrideGuard_def trackNormalized_def
      STALE_MINUTE_THRESHOLD_MS_def)

subsection \<open>The cap of 130\<close>

text \<open>
  C8, as stated, fails: a minute that the feed states is returned as it is, above 130 too.
\<close>

theorem normalizeSmMatch_minute_above_cap:
  "\<not> fst (normalizeSmMatch defaultAdapterConfig emptyAdapterState
          ((barePayload ''M1'')\<lparr>time_minute := Some 131\<rparr>) 1000) \<le> 130"
  by (simp add: normalizeSmMatch_def normalizeMinute_def extractMinute_def barePayload_def
      emptyAdapterState_def defaultAdapterConfig_def trackRawChange_def
      applyLastMinuteCache_def overrideGuard_def trackNormalized_def)

text \<open>
  C8, as amended. For every payload, state and clock reading, the normalized minute is at
  most 130 unless it is the raw minute and one that the feed itself states (in one of the
  fields of steps 1 to 4 of \<open>extractMinute\<close>): whatever is extrapolated from the kickoff
  timestamp, from the cache or by the override guard is capped at 130.
\<close>

theorem normalizeSmMatch_minute_cap:
  "fst (normalizeSmMatch cfg st m now) \<le> 130
   \<or> (fst (normalizeSmMatch cfg st m now) = extractMinute cfg m now
      \<and> Some (extractMinute cfg m now) \<in> set (feedMinutes m))"
proof (cases "fst (normalizeSmMatch cfg st m now) \<le> 130")
  case True
  then show ?thesis by simp
next
  case False
  let ?raw = "extractMinute cfg m now"
  have le: "fst (normalizeSmMatch cfg st m now) \<le> max 130 ?raw"
    by (simp add: normalizeSmMatch_def normalizeMinute_le)
  with False have big: "130 < ?raw" by simp
  then have "?raw \<le> fst (normalizeSmMatch cfg st m now)"
    by (simp add: normalizeSmMatch_def normalizeMinute_ge_raw)
  with le big have "fst (normalizeSmMatch cfg st m now) = ?raw" by simp
  moreover have "Some ?raw \<in> set (feedMinutes m)"
    using extractMinute_cases [of cfg m now] big by simp
  ultimately show ?thesis by simp
qed

text \<open>
  A match without any stated minute, kicked off 10000 minutes before the clock reading: the
  kickoff estimate is capped and 130 is returned.
\<close>

theorem normalizeSmMatch_minute_cap_witness:
  "fst (normalizeSmMatch defaultAdapterConfig emptyAdapterState
          ((barePayload ''M1'')\<lparr>startTs := Some 1000\<rparr>) 600001000000) = 130"
proof -
  let ?p = "(barePayload ''M1'')\<lparr>startTs := Some 1000\<rparr>"
  have "Some (extractMinute defaultAdapterConfig ?p 600001000000) \<notin> set (feedMinutes ?p)"
    by (simp add: feedMinutes_def barePayload_def)
  then have "fst (normalizeSmMatch defaultAdapterConfig emptyAdapterState ?p 600001000000)
             \<le> 130"
    using normalizeSmMatch_minute_cap [of defaultAdapterConfig emptyAdapterState ?p 600001000000]
    by simp
  moreover have "130 \<le> fst (normalizeSmMatch defaultAdapterConfig emptyAdapterState ?p
                    600001000000)"
    by (simp add: normalizeSmMatch_def normalizeMinute_def extractMinute_def barePayload_def
        emptyAdapterState_def defaultAdapterConfig_def trackRawChange_def
        applyLastMinuteCache_def overrideGuard_def trackNormalized_def startingAtMinute_def
        liveStatuses_def)
  ultimately show ?thesis by simp
qed

subsection \<open>When the cache entry is rewritten\<close>

text \<open>
  C9, as stated, fails for \<open>SportMonksClient.applyLastMinuteCache\<close>: the client rewrites
  its entry at every positive minute. Minute 27 seen at 1000 and again at 5000 moves the
  stamp of the entry.
\<close>

theorem client_cache_rewritten_on_repeat:
  "clientLastMinuteCache
     (snd (client_applyLastMinuteCache 90
            (snd (client_applyLastMinuteCache 90 emptyClientState ''M1'' 27 1000))
            ''M1'' 27 5000)) ''M1''
   \<noteq> clientLastMinuteCache
       (snd (client_applyLastMinuteCache 90 emptyClientState ''M1'' 27 1000)) ''M1''"
  by (simp add: client_applyLastMinuteCache_def emptyClientState_def)

text \<open>
  C9, as amended. In the adapter (\<open>normalizeSmMatch\<close>), the entry of a match in
  \<open>lastMinuteCache\<close> is written exactly when the raw minute is positive and the match has no
  entry or one with a lower minute; the entry is then the raw minute with the clock
  reading. In every other case, in particular for the same or a lower positive minute, all
  entries stay as they are. The same holds for \<open>lastNormalizedMinute\<close> and the normalized
  minute. The cache of \<open>SportMonksClient\<close> is different: every positive minute rewrites
  the entry of the match with the clock reading.
\<close>

theorem lastMinuteCache_rewritten_only_on_increase:
  "lastMinuteCache (snd (normalizeSmMatch cfg st m now)) k =
     (if k = matchKey m \<and> 0 < extractMinute cfg m now
         \<and> (case lastMinuteCache st (matchKey m) of
              None \<Rightarrow> True
            | Some cached \<Rightarrow> minute cached < extractMinute cfg m now)
      then Some \<lparr>minute = extractMinute cfg m now, timestamp = now\<rparr>
      else lastMinuteCache st k)
   \<and> lastNormalizedMinute (snd (normalizeSmMatch cfg st m now)) k =
     (if k = matchKey m \<and> 0 < fst (normalizeSmMatch cfg st m now)
         \<and> (case lastNormalizedMinute st (matchKey m) of
              None \<Rightarrow> True
            | Some prev \<Rightarrow> minute prev < fst (normalizeSmMatch cfg st m now))
      then Some \<lparr>minute = fst (normalizeSmMatch cfg st m now), timestamp = now\<rparr>
      else lastNormalizedMinute st k)
   \<and> (0 < mn \<longrightarrow>
        clientLastMinuteCache (snd (client_applyLastMinuteCache sec cst k mn now)) k
        = Some \<lparr>minute = mn, timestamp = now\<rparr>)"
  by (simp add: normalizeSmMatch_def normalizeMinute_snd applyLastMinuteCache_def
      trackNormalized_def client_applyLastMinuteCache_def Let_def split: option.splits)

text \<open>
  The adapter sees 27 at 1000 and 27 again at 64000: the entry keeps the stamp 1000. The
  client, given the same, stamps its entry 64000.
\<close>

theorem lastMinuteCache_rewritten_only_on_increase_witness:
  "lastMinuteCache
     (snd (normalizeSmMatch defaultAdapterConfig
            (snd (normalizeSmMatch defaultAdapterConfig emptyAdapterState
                   ((barePayload ''M1'')\<lparr>time_minute := Some 27\<rparr>) 1000))
            ((barePayload ''M1'')\<lparr>time_minute := Some 27\<rparr>) 64000)) ''M1''
   = Some \<lparr>minute = 27, timestamp = 1000\<rparr>
   \<and> clientLastMinuteCache
       (snd (client_applyLastMinuteCache 90
              (snd (client_applyLastMinuteCache 90 emptyClientState ''M1'' 27 1000))
              ''M1'' 27 64000)) ''M1''
     = Some \<lparr>minute = 27, timestamp = 64000\<rparr>"
proof -
  let ?p = "(barePayload ''M1'')\<lparr>time_minute := Some 27\<rparr>"
  let ?st1 = "snd (normalizeSmMatch defaultAdapterConfig emptyAdapterState ?p 1000)"
  let ?c1 = "snd (client_applyLastMinuteCache 90 emptyClientState ''M1'' 27 1000)"
  have raw: "extractMinute defaultAdapterConfig ?p 1000 = 27"
    "extractMinute defaultAdapterConfig ?p 64000 = 27" "matchKey ?p = ''M1''"
    by (simp_all add: extractMinute_def barePayload_def)
  have one: "lastMinuteCache ?st1 ''M1'' = Some \<lparr>minute = 27, timestamp = 1000\<rparr>"
    using lastMinuteCache_rewritten_only_on_increase
      [of defaultAdapterConfig emptyAdapterState ?p 1000 "''M1''" 1 90 emptyClientState]
    by (simp add: raw emptyAdapterState_def)
  show ?thesis
    using lastMinuteCache_rewritten_only_on_increase
      [of defaultAdapterConfig ?st1 ?p 64000 "''M1''" 27 90 ?c1]
    by (simp add: raw one)
qed

section \<open>Properties of the signal lifecycle manager\<close>

subsection \<open>The loop body of update\<close>

lemma promoteSignal_rank:
  "stateRank (state s) \<le> stateRank (state (fst (promoteSignal cfg now cd s)))"
  by (cases "state s") (simp_all add: promoteSignal_def Let_def)

lemma promoteSignal_fields:
  "sid (fst (promoteSignal cfg now cd s)) = sid s"
  "createdTs (fst (promoteSignal cfg now cd s)) = createdTs s"
  "confidence (fst (promoteSignal cfg now cd s)) = confidence s"
  "sminute (fst (promoteSignal cfg now cd s)) = sminute s"
  "liquidityOk (fst (promoteSignal cfg now cd s)) = liquidityOk s"
  "reasoning (fst (promoteSignal cfg now cd s)) = reasoning s"
  "meta (fst (promoteSignal cfg now cd s)) = meta s"
  "ttlSeconds (fst (promoteSignal cfg now cd s)) = ttlSeconds s"
  by (simp_all add: promoteSignal_def Let_def)

lemma promoteSignal_expired:
  "state s \<noteq> EXPIRED \<Longrightarrow> state (fst (promoteSignal cfg now cd s)) \<noteq> EXPIRED"
  by (simp add: promoteSignal_def Let_def)

text \<open>The cooldown entry is written exactly when the signal is promoted to ACTIVE.\<close>

lemma promoteSignal_cooldown:
  assumes "state s \<noteq> ACTIVE"
  shows "snd (promoteSignal cfg now cd s)
         = (if state (fst (promoteSignal cfg now cd s)) = ACTIVE then cd(sid s \<mapsto> now) else cd)"
  using assms by (cases "state s") (simp_all add: promoteSignal_def Let_def)

lemma promoteSignal_active_dedup:
  assumes "state s \<noteq> ACTIVE" "state (fst (promoteSignal cfg now cd s)) = ACTIVE"
  shows "case cd (sid s) of
           None \<Rightarrow> True
         | Some t0 \<Rightarrow> t0 = 0 \<or> cooldownSeconds cfg * 1000 \<le> real_of_int (now - t0)"
  using assms
  by (cases "state s")
    (auto simp: promoteSignal_def Let_def isDeduplicated_def split: if_splits option.splits)

lemma mergeExisting_fields:
  "sid (mergeExisting sigs now c) = sid c"
  "confidence (mergeExisting sigs now c) = confidence c"
  "sminute (mergeExisting sigs now c) = sminute c"
  "liquidityOk (mergeExisting sigs now c) = liquidityOk c"
  "reasoning (mergeExisting sigs now c) = reasoning c"
  "meta (mergeExisting sigs now c) = meta c"
  "ttlSeconds (mergeExisting sigs now c) = ttlSeconds c"
  by (simp_all add: mergeExisting_def Let_def split: option.splits)

lemma mergeExisting_existing:
  "map_of sigs (sid c) = Some existing \<Longrightarrow>
     mergeExisting sigs now c
     = c\<lparr>lastUpdateTs := now, createdTs := createdTs existing, state := state existing\<rparr>"
  by (simp add: mergeExisting_def Let_def)

lemma mergeExisting_new:
  "map_of sigs (sid c) = None \<Longrightarrow> mergeExisting sigs now c = c\<lparr>lastUpdateTs := now\<rparr>"
  by (simp add: mergeExisting_def Let_def)

lemma updateCandidate_lookup:
  "map_of (signals (updateCandidate cfg now svc c)) k
   = (if k = sid c then Some (storedAfter cfg now svc c) else map_of (signals svc) k)"
  by (simp add: updateCandidate_def storedAfter_def Let_def update_conv' mergeExisting_fields)

lemma updateCandidate_distinct:
  "distinct (map fst (signals svc)) \<Longrightarrow>
     distinct (map fst (signals (updateCandidate cfg now svc c)))"
  by (simp add: updateCandidate_def Let_def distinct_update)

lemma storedAfter_rank:
  "stateRank (state (mergeExisting (signals svc) now c))
   \<le> stateRank (state (storedAfter cfg now svc c))"
  by (simp add: storedAfter_def Let_def promoteSignal_rank)

lemma storedAfter_fields:
  "createdTs (storedAfter cfg now svc c) = createdTs (mergeExisting (signals svc) now c)"
  "confidence (storedAfter cfg now svc c) = confidence c"
  "sminute (storedAfter cfg now svc c) = sminute c"
  "liquidityOk (storedAfter cfg now svc c) = liquidityOk c"
  "reasoning (storedAfter cfg now svc c) = reasoning c"
  "meta (storedAfter cfg now svc c) = meta c"
  by (simp_all add: storedAfter_def Let_def promoteSignal_fields mergeExisting_fields)

lemma updateCandidate_cooldown:
  "cooldown (updateCandidate cfg now svc c)
   = (if activatedBy cfg now svc c then (cooldown svc)(sid c \<mapsto> now) else cooldown svc)"
proof (cases "state (mergeExisting (signals svc) now c) = PRE
              \<or> state (mergeExisting (signals svc) now c) = CANDIDATE")
  case True
  then have "state (mergeExisting (signals svc) now c) \<noteq> ACTIVE" by auto
  from promoteSignal_cooldown [OF this, of cfg now "cooldown svc"] True show ?thesis
    by (simp add: updateCandidate_def activatedBy_def Let_def mergeExisting_fields)
next
  case False
  then show ?thesis by (simp add: updateCandidate_def activatedBy_def Let_def)
qed

subsection \<open>The sweep\<close>

lemma fold_delete_filter:
  "fold AList.delete ks al = filter (\<lambda>p. fst p \<notin> set ks) al"
proof (induction ks arbitrary: al)
  case Nil
  then show ?case by simp
next
  case (Cons k ks)
  have "filter (\<lambda>p. fst p \<notin> set ks) (AList.delete k al)
        = filter (\<lambda>p. fst p \<notin> set (k # ks)) al"
    by (induction al) (auto simp: AList.delete_eq)
  with Cons show ?case by simp
qed

lemma sweepExpired_eq:
  "sweepExpired now sigs
   = filter (\<lambda>p. fst p \<notin> fst ` {q \<in> set sigs. getTimeLeft now (snd q) \<le> 0}) sigs"
proof -
  let ?bad = "fst ` {q \<in> set sigs. getTimeLeft now (snd q) \<le> 0}"
  have ids: "set (map fst (filter (\<lambda>(k, signal). fst (expireSignal now signal)) sigs)) = ?bad"
    by (auto simp: expireSignal_def image_iff split: if_splits)
  have "filter (\<lambda>p. fst p \<notin> ?bad)
          (map (\<lambda>(k, signal). (k, snd (expireSignal now signal))) sigs)
        = filter (\<lambda>p. fst p \<notin> ?bad) sigs"
  proof -
    have "\<And>xs. set xs \<subseteq> set sigs \<Longrightarrow>
            filter (\<lambda>p. fst p \<notin> ?bad)
              (map (\<lambda>(k, signal). (k, snd (expireSignal now signal))) xs)
            = filter (\<lambda>p. fst p \<notin> ?bad) xs"
    proof -
      fix xs :: "(string \<times> SignalCandidate) list"
      show "set xs \<subseteq> set sigs \<Longrightarrow>
            filter (\<lambda>p. fst p \<notin> ?bad)
              (map (\<lambda>(k, signal). (k, snd (expireSignal now signal))) xs)
            = filter (\<lambda>p. fst p \<notin> ?bad) xs"
      proof (induction xs)
        case Nil
        then show ?case by simp
      next
        case (Cons x xs)
        obtain k s where x: "x = (k, s)" by (cases x)
        have "k \<notin> ?bad \<Longrightarrow> snd (expireSignal now s) = s"
          using Cons.prems x by (force simp: expireSignal_def image_iff)
        with Cons x show ?case by auto
      qed
    qed
    then show ?thesis by simp
  qed
  then show ?thesis
    by (simp add: sweepExpired_def Let_def fold_delete_filter ids del: set_map)
qed

lemma map_of_filter_keys:
  "map_of (filter (\<lambda>p. fst p \<notin> B) xs) k = (if k \<in> B then None else map_of xs k)"
  by (induction xs) auto

lemma sweepExpired_lookup:
  "map_of (sweepExpired now sigs) k
   = (if k \<in> fst ` {q \<in> set sigs. getTimeLeft now (snd q) \<le> 0} then None
      else map_of sigs k)"
  by (simp only: sweepExpired_eq map_of_filter_keys)

lemma sweepExpired_lookup_Some:
  assumes "map_of (sweepExpired now sigs) k = Some s"
  shows "map_of sigs k = Some s \<and> 0 < getTimeLeft now s"
proof -
  let ?bad = "fst ` {q \<in> set sigs. getTimeLeft now (snd q) \<le> 0}"
  have "(if k \<in> ?bad then None else map_of sigs k) = Some s"
    using assms by (simp only: sweepExpired_lookup)
  then have good: "k \<notin> ?bad" and look: "map_of sigs k = Some s"
    by (auto split: if_splits)
  have "(k, s) \<in> set sigs"
    using look by (rule map_of_SomeD)
  then have "0 < getTimeLeft now s"
    using good by (force simp: image_iff)
  with look show ?thesis by simp
qed

lemma sweepExpired_lookup_distinct:
  assumes "distinct (map fst sigs)" "map_of sigs k = Some s"
  shows "map_of (sweepExpired now sigs) k = (if getTimeLeft now s \<le> 0 then None else Some s)"
proof -
  let ?bad = "fst ` {q \<in> set sigs. getTimeLeft now (snd q) \<le> 0}"
  have only: "\<And>s'. (k, s') \<in> set sigs \<Longrightarrow> s' = s"
    using assms by (metis map_of_is_SomeI option.inject)
  have mem: "(k, s) \<in> set sigs"
    using assms(2) by (rule map_of_SomeD)
  have bad: "k \<in> ?bad \<longleftrightarrow> getTimeLeft now s \<le> 0"
  proof
    assume "k \<in> ?bad"
    then obtain s' where "(k, s') \<in> set sigs" "getTimeLeft now s' \<le> 0" by auto
    then show "getTimeLeft now s \<le> 0" using only by blast
  next
    assume "getTimeLeft now s \<le> 0"
    then show "k \<in> ?bad" using mem by (force simp: image_iff)
  qed
  show ?thesis
    unfolding sweepExpired_lookup using bad assms(2) by simp
qed

lemma sweepExpired_subset: "set (sweepExpired now sigs) \<subseteq> set sigs"
  by (auto simp: sweepExpired_eq)

lemma sweepExpired_distinct:
  "distinct (map fst sigs) \<Longrightarrow> distinct (map fst (sweepExpired now sigs))"
  by (simp add: sweepExpired_eq distinct_map_filter)

subsection \<open>The loop over the candidates\<close>

lemma set_update_subset: "set (AList.update k v al) \<subseteq> insert (k, v) (set al)"
  by (induction al) auto

lemma fold_updateCandidate_keeps:
  assumes "map_of (signals svc) k = Some s"
  shows "\<exists>s'. map_of (signals (fold (\<lambda>c s. updateCandidate cfg now s c) cs svc)) k = Some s'
              \<and> stateRank (state s) \<le> stateRank (state s')
              \<and> createdTs s' = createdTs s"
  using assms
proof (induction cs arbitrary: svc s)
  case Nil
  then show ?case by simp
next
  case (Cons c cs)
  let ?svc1 = "updateCandidate cfg now svc c"
  have "\<exists>s1. map_of (signals ?svc1) k = Some s1
             \<and> stateRank (state s) \<le> stateRank (state s1) \<and> createdTs s1 = createdTs s"
  proof (cases "k = sid c")
    case True
    then have m: "mergeExisting (signals svc) now c
                  = c\<lparr>lastUpdateTs := now, createdTs := createdTs s, state := state s\<rparr>"
      using Cons.prems by (simp add: mergeExisting_existing)
    have "stateRank (state s) \<le> stateRank (state (storedAfter cfg now svc c))"
      using storedAfter_rank [of svc now c cfg] by (simp add: m)
    moreover have "createdTs (storedAfter cfg now svc c) = createdTs s"
      by (simp add: storedAfter_fields m)
    ultimately show ?thesis
      using True by (simp add: updateCandidate_lookup)
  next
    case False
    then show ?thesis
      using Cons.prems by (simp add: updateCandidate_lookup)
  qed
  then obtain s1 where s1: "map_of (signals ?svc1) k = Some s1"
    "stateRank (state s) \<le> stateRank (state s1)" "createdTs s1 = createdTs s"
    by blast
  from Cons.IH [OF s1(1)] obtain s' where
    "map_of (signals (fold (\<lambda>c s. updateCandidate cfg now s c) cs ?svc1)) k = Some s'"
    "stateRank (state s1) \<le> stateRank (state s')" "createdTs s' = createdTs s1"
    by blast
  with s1 show ?case by auto
qed

lemma fold_updateCandidate_last:
  assumes "find (\<lambda>c. sid c = k) (rev cs) = Some c"
  shows "\<exists>s'. map_of (signals (fold (\<lambda>c s. updateCandidate cfg now s c) cs svc)) k = Some s'
              \<and> confidence s' = confidence c \<and> sminute s' = sminute c
              \<and> liquidityOk s' = liquidityOk c \<and> reasoning s' = reasoning c
              \<and> meta s' = meta c"
  using assms
proof (induction cs rule: rev_induct)
  case Nil
  then show ?case by simp
next
  case (snoc x cs)
  let ?svc1 = "fold (\<lambda>c s. updateCandidate cfg now s c) cs svc"
  show ?case
  proof (cases "sid x = k")
    case True
    then have "c = x" using snoc.prems by simp
    then show ?thesis
      using True by (simp add: updateCandidate_lookup storedAfter_fields)
  next
    case False
    then have "find (\<lambda>c. sid c = k) (rev cs) = Some c"
      using snoc.prems by simp
    from snoc.IH [OF this] show ?thesis
      using False by (auto simp: updateCandidate_lookup)
  qed
qed

lemma fold_updateCandidate_distinct:
  "distinct (map fst (signals svc)) \<Longrightarrow>
     distinct (map fst (signals (fold (\<lambda>c s. updateCandidate cfg now s c) cs svc)))"
  by (induction cs arbitrary: svc) (simp_all add: updateCandidate_distinct)

lemma storedAfter_not_expired:
  assumes "state c \<noteq> EXPIRED" and "\<forall>p\<in>set (signals svc). state (snd p) \<noteq> EXPIRED"
  shows "state (storedAfter cfg now svc c) \<noteq> EXPIRED"
proof -
  have "state (mergeExisting (signals svc) now c) \<noteq> EXPIRED"
  proof (cases "map_of (signals svc) (sid c)")
    case None
    then show ?thesis using assms(1) by (simp add: mergeExisting_new)
  next
    case (Some e)
    then have "(sid c, e) \<in> set (signals svc)" by (rule map_of_SomeD)
    then have "state e \<noteq> EXPIRED" using assms(2) by force
    then show ?thesis using Some by (simp add: mergeExisting_existing)
  qed
  then show ?thesis
    by (simp add: storedAfter_def Let_def promoteSignal_expired)
qed

lemma updateCandidate_signals:
  "signals (updateCandidate cfg now svc c)
   = AList.update (sid c) (storedAfter cfg now svc c) (signals svc)"
  by (cases "state (mergeExisting (signals svc) now c) = PRE
             \<or> state (mergeExisting (signals svc) now c) = CANDIDATE")
    (simp_all add: updateCandidate_def storedAfter_def Let_def mergeExisting_fields)

lemma updateCandidate_set:
  "set (signals (updateCandidate cfg now svc c))
   \<subseteq> insert (sid c, storedAfter cfg now svc c) (set (signals svc))"
  by (simp only: updateCandidate_signals set_update_subset)

lemma fold_updateCandidate_not_expired:
  assumes "\<forall>p\<in>set (signals svc). state (snd p) \<noteq> EXPIRED"
    and "\<forall>c\<in>set cs. state c \<noteq> EXPIRED"
  shows "\<forall>p\<in>set (signals (fold (\<lambda>c s. updateCandidate cfg now s c) cs svc)).
           state (snd p) \<noteq> EXPIRED"
  using assms
proof (induction cs arbitrary: svc)
  case Nil
  then show ?case by simp
next
  case (Cons c cs)
  have "state (storedAfter cfg now svc c) \<noteq> EXPIRED"
    using Cons.prems by (intro storedAfter_not_expired) simp_all
  then have "\<forall>p\<in>set (signals (updateCandidate cfg now svc c)). state (snd p) \<noteq> EXPIRED"
    using updateCandidate_set [of cfg now svc c] Cons.prems(1) by fastforce
  from Cons.IH [OF this] Cons.prems(2) show ?case by simp
qed

lemma updateState_signals:
  "signals (updateState cfg now svc cs)
   = sweepExpired now (signals (fold (\<lambda>c s. updateCandidate cfg now s c) cs svc))"
  by (simp add: updateState_def Let_def)

lemma updateState_cooldown:
  "cooldown (updateState cfg now svc cs)
   = cooldown (fold (\<lambda>c s. updateCandidate cfg now s c) cs svc)"
  by (simp add: updateState_def Let_def)

lemma update_snd: "snd (update cfg now svc cs) = updateState cfg now svc cs"
  by (simp add: update_def Let_def)

lemma update_distinct:
  "distinct (map fst (signals svc)) \<Longrightarrow>
     distinct (map fst (signals (snd (update cfg now svc cs))))"
  by (simp add: update_snd updateState_signals sweepExpired_distinct
      fold_updateCandidate_distinct)

subsection \<open>Forward-only states\<close>

text \<open>
  C2. \<open>promoteSignal\<close> never moves a signal back in the order PRE, CANDIDATE, ACTIVE,
  EXPIRED. A signal that is in the live set before a call of \<open>update\<close> is, after the
  call, either gone or in a state that is not earlier in that order. No signal that
  \<open>expireSignal\<close> marks EXPIRED in a call is in the live set after the call; and when
  no signal comes in as EXPIRED, no signal of the live set is ever in that state.
\<close>

theorem update_states_forward:
  "stateRank (state s0) \<le> stateRank (state (fst (promoteSignal cfg now cd s0)))
   \<and> (map_of (signals svc) k = Some s \<longrightarrow>
        (case map_of (signals (snd (update cfg now svc cs))) k of
           None \<Rightarrow> True
         | Some s' \<Rightarrow> stateRank (state s) \<le> stateRank (state s')))
   \<and> (\<forall>k' s'. map_of (signals (snd (update cfg now svc cs))) k' = Some s' \<longrightarrow>
                \<not> fst (expireSignal now s'))
   \<and> ((\<forall>p\<in>set (signals svc). state (snd p) \<noteq> EXPIRED)
        \<and> (\<forall>c\<in>set cs. state c \<noteq> EXPIRED) \<longrightarrow>
       (\<forall>p\<in>set (signals (snd (update cfg now svc cs))). state (snd p) \<noteq> EXPIRED))"
proof (intro conjI impI allI)
  show "stateRank (state s0) \<le> stateRank (state (fst (promoteSignal cfg now cd s0)))"
    by (rule promoteSignal_rank)
next
  assume "map_of (signals svc) k = Some s"
  from fold_updateCandidate_keeps [OF this, of cfg now cs] obtain s1 where
    s1: "map_of (signals (fold (\<lambda>c s. updateCandidate cfg now s c) cs svc)) k = Some s1"
      "stateRank (state s) \<le> stateRank (state s1)"
    by blast
  show "case map_of (signals (snd (update cfg now svc cs))) k of
          None \<Rightarrow> True
        | Some s' \<Rightarrow> stateRank (state s) \<le> stateRank (state s')"
  proof (cases "map_of (signals (snd (update cfg now svc cs))) k")
    case None
    then show ?thesis by simp
  next
    case (Some s')
    then have "s' = s1"
      using sweepExpired_lookup_Some [of now _ k s'] s1(1)
      by (simp add: update_snd updateState_signals)
    then show ?thesis using Some s1(2) by simp
  qed
next
  fix k' s'
  assume "map_of (signals (snd (update cfg now svc cs))) k' = Some s'"
  then have "0 < getTimeLeft now s'"
    using sweepExpired_lookup_Some [of now _ k' s']
    by (simp add: update_snd updateState_signals)
  then show "\<not> fst (expireSignal now s')"
    by (simp add: expireSignal_def)
next
  assume "(\<forall>p\<in>set (signals svc). state (snd p) \<noteq> EXPIRED)
          \<and> (\<forall>c\<in>set cs. state c \<noteq> EXPIRED)"
  then have "\<forall>p\<in>set (signals (fold (\<lambda>c s. updateCandidate cfg now s c) cs svc)).
               state (snd p) \<noteq> EXPIRED"
    using fold_updateCandidate_not_expired by blast
  then show "\<forall>p\<in>set (signals (snd (update cfg now svc cs))). state (snd p) \<noteq> EXPIRED"
    using sweepExpired_subset by (fastforce simp: update_snd updateState_signals)
qed

subsection \<open>Merging an incoming candidate into a stored signal\<close>

text \<open>
  C5. Take an identity that is in the live set before a call of \<open>update\<close>. After the call
  the signal stored for it, when it is still there, has the \<open>createdTs\<close> it had before
  and a state that is the one it had before or a later one (by promotion in this call).
  When candidates with this identity come in, the loop body gives each of them \<open>createdTs\<close>
  and \<open>state\<close> of the stored signal before it tries a promotion, and the signal stored
  after the call has confidence, minute, liquidityOk, reasoning and meta of the incoming
  candidate (the last one of the call with this identity); it is gone exactly when its
  time to live has run out. \<open>lastUpdateTs\<close> is the clock reading of the call.
\<close>

theorem update_merges_existing:
  assumes "distinct (map fst (signals svc))"
    and "map_of (signals svc) k = Some existing"
  shows "(case map_of (signals (snd (update cfg now svc candidates))) k of
            None \<Rightarrow> True
          | Some s' \<Rightarrow> createdTs s' = createdTs existing
                      \<and> stateRank (state existing) \<le> stateRank (state s'))
         \<and> (find (\<lambda>c. sid c = k) (rev candidates) = Some c \<longrightarrow>
              (\<exists>s'. createdTs s' = createdTs existing
                    \<and> stateRank (state existing) \<le> stateRank (state s')
                    \<and> confidence s' = confidence c \<and> sminute s' = sminute c
                    \<and> liquidityOk s' = liquidityOk c \<and> reasoning s' = reasoning c
                    \<and> meta s' = meta c
                    \<and> map_of (signals (snd (update cfg now svc candidates))) k
                      = (if getTimeLeft now s' \<le> 0 then None else Some s')))
         \<and> (sid c1 = k \<longrightarrow>
              mergeExisting (signals svc) now c1
              = c1\<lparr>lastUpdateTs := now, createdTs := createdTs existing,
                   state := state existing\<rparr>)"
proof -
  let ?svc1 = "fold (\<lambda>c s. updateCandidate cfg now s c) candidates svc"
  let ?after = "snd (update cfg now svc candidates)"
  from fold_updateCandidate_keeps [OF assms(2), of cfg now candidates] obtain s1 where
    s1: "map_of (signals ?svc1) k = Some s1"
      "stateRank (state existing) \<le> stateRank (state s1)" "createdTs s1 = createdTs existing"
    by blast
  have "distinct (map fst (signals ?svc1))"
    using assms(1) by (rule fold_updateCandidate_distinct)
  from sweepExpired_lookup_distinct [OF this s1(1), of now]
  have after: "map_of (signals ?after) k = (if getTimeLeft now s1 \<le> 0 then None else Some s1)"
    by (simp add: update_snd updateState_signals)
  have first: "case map_of (signals ?after) k of
                 None \<Rightarrow> True
               | Some s' \<Rightarrow> createdTs s' = createdTs existing
                           \<and> stateRank (state existing) \<le> stateRank (state s')"
    using s1(2,3) by (simp add: after)
  have second: "find (\<lambda>c. sid c = k) (rev candidates) = Some c \<longrightarrow>
              (\<exists>s'. createdTs s' = createdTs existing
                    \<and> stateRank (state existing) \<le> stateRank (state s')
                    \<and> confidence s' = confidence c \<and> sminute s' = sminute c
                    \<and> liquidityOk s' = liquidityOk c \<and> reasoning s' = reasoning c
                    \<and> meta s' = meta c
                    \<and> map_of (signals ?after) k
                      = (if getTimeLeft now s' \<le> 0 then None else Some s'))"
  proof
    assume "find (\<lambda>c. sid c = k) (rev candidates) = Some c"
    from fold_updateCandidate_last [OF this, of cfg now svc] s1(1) have
      "confidence s1 = confidence c" "sminute s1 = sminute c"
      "liquidityOk s1 = liquidityOk c" "reasoning s1 = reasoning c" "meta s1 = meta c"
      by auto
    with s1 after show "\<exists>s'. createdTs s' = createdTs existing
                    \<and> stateRank (state existing) \<le> stateRank (state s')
                    \<and> confidence s' = confidence c \<and> sminute s' = sminute c
                    \<and> liquidityOk s' = liquidityOk c \<and> reasoning s' = reasoning c
                    \<and> meta s' = meta c
                    \<and> map_of (signals ?after) k
                      = (if getTimeLeft now s' \<le> 0 then None else Some s')"
      by blast
  qed
  have third: "sid c1 = k \<longrightarrow>
          mergeExisting (signals svc) now c1
          = c1\<lparr>lastUpdateTs := now, createdTs := createdTs existing, state := state existing\<rparr>"
    using assms(2) by (auto simp: mergeExisting_existing)
  from first second third show ?thesis by blast
qed

subsection \<open>Cooldown\<close>

lemma applyLog_Cons: "applyLog m ((k, t) # evs) = applyLog (m(k \<mapsto> t)) evs"
  by (simp add: applyLog_def)

lemma applyLog_append: "applyLog m (l1 @ l2) = applyLog (applyLog m l1) l2"
  by (simp add: applyLog_def)

lemma applyLog_other: "k \<notin> fst ` set evs \<Longrightarrow> applyLog m evs k = m k"
  by (induction evs arbitrary: m) (auto simp: applyLog_Cons applyLog_def)

lemma gapsRespected_append:
  "gapsRespected c m (l1 @ l2) = (gapsRespected c m l1 \<and> gapsRespected c (applyLog m l1) l2)"
proof (induction l1 arbitrary: m)
  case Nil
  then show ?case by (simp add: applyLog_def)
next
  case (Cons e l1)
  obtain k t where e: "e = (k, t)" by (cases e)
  show ?case
    unfolding e append_Cons gapsRespected.simps applyLog_Cons
    using Cons.IH [of "m(k \<mapsto> t)"] by blast
qed

lemma updateCandidate_cooldown_activated:
  "activatedBy cfg now svc c \<Longrightarrow>
     cooldown (updateCandidate cfg now svc c) = (cooldown svc)(sid c \<mapsto> now)"
  by (simp only: updateCandidate_cooldown if_True)

lemma updateCandidate_cooldown_same:
  "\<not> activatedBy cfg now svc c \<Longrightarrow> cooldown (updateCandidate cfg now svc c) = cooldown svc"
  by (simp only: updateCandidate_cooldown if_False)

lemma activationsOfCall_cooldown:
  "cooldown (fold (\<lambda>c s. updateCandidate cfg now s c) cs svc)
   = applyLog (cooldown svc) (activationsOfCall cfg now svc cs)"
proof (induction cs arbitrary: svc)
  case Nil
  then show ?case by (simp add: applyLog_def)
next
  case (Cons c cs)
  have "cooldown (fold (\<lambda>c s. updateCandidate cfg now s c) cs (updateCandidate cfg now svc c))
        = applyLog (cooldown (updateCandidate cfg now svc c))
            (activationsOfCall cfg now (updateCandidate cfg now svc c) cs)"
    by (rule Cons.IH)
  then show ?case
  proof (cases "activatedBy cfg now svc c")
    case True
    then show ?thesis
      using Cons.IH [of "updateCandidate cfg now svc c"]
      by (simp only: fold_simps activationsOfCall.simps if_True append_Cons append_Nil
          applyLog_Cons updateCandidate_cooldown_activated [OF True])
  next
    case False
    then show ?thesis
      using Cons.IH [of "updateCandidate cfg now svc c"]
      by (simp only: fold_simps activationsOfCall.simps if_False append_Nil
          updateCandidate_cooldown_same [OF False])
  qed
qed

lemma activatedBy_dedup:
  assumes "activatedBy cfg now svc c"
  shows "case cooldown svc (sid c) of
           None \<Rightarrow> True
         | Some t0 \<Rightarrow> t0 = 0 \<or> cooldownSeconds cfg * 1000 \<le> real_of_int (now - t0)"
proof -
  let ?m = "mergeExisting (signals svc) now c"
  have "state ?m \<noteq> ACTIVE" "state (fst (promoteSignal cfg now (cooldown svc) ?m)) = ACTIVE"
    using assms by (auto simp: activatedBy_def Let_def)
  from promoteSignal_active_dedup [OF this] show ?thesis
    by (simp add: mergeExisting_fields)
qed

lemma activationsOfCall_gaps:
  "gapsRespected (cooldownSeconds cfg * 1000) (cooldown svc) (activationsOfCall cfg now svc cs)"
proof (induction cs arbitrary: svc)
  case Nil
  then show ?case by simp
next
  case (Cons c cs)
  show ?case
  proof (cases "activatedBy cfg now svc c")
    case True
    have "gapsRespected (cooldownSeconds cfg * 1000) ((cooldown svc)(sid c \<mapsto> now))
            (activationsOfCall cfg now (updateCandidate cfg now svc c) cs)"
      using Cons.IH [of "updateCandidate cfg now svc c"]
      by (simp only: updateCandidate_cooldown_activated [OF True])
    then show ?thesis
      using True activatedBy_dedup [OF True] by simp
  next
    case False
    have "gapsRespected (cooldownSeconds cfg * 1000) (cooldown svc)
            (activationsOfCall cfg now (updateCandidate cfg now svc c) cs)"
      using Cons.IH [of "updateCandidate cfg now svc c"]
      by (simp only: updateCandidate_cooldown_same [OF False])
    then show ?thesis
      using False by simp
  qed
qed

lemma activationsOfRun_gaps:
  "gapsRespected (cooldownSeconds cfg * 1000) (cooldown svc) (activationsOfRun cfg svc calls)"
proof (induction calls arbitrary: svc)
  case Nil
  then show ?case by simp
next
  case (Cons call calls)
  obtain now cs where call: "call = (now, cs)" by (cases call)
  have "cooldown (snd (update cfg now svc cs))
        = applyLog (cooldown svc) (activationsOfCall cfg now svc cs)"
    by (simp add: update_snd updateState_cooldown activationsOfCall_cooldown)
  then show ?case
    using Cons.IH [of "snd (update cfg now svc cs)"] activationsOfCall_gaps [of cfg svc now cs]
    by (simp add: call gapsRespected_append)
qed

lemma activationsOfCall_stamps: "e \<in> set (activationsOfCall cfg now svc cs) \<Longrightarrow> snd e = now"
  by (induction cs arbitrary: svc) (auto split: if_splits)

lemma activationsOfRun_stamps:
  "e \<in> set (activationsOfRun cfg svc calls) \<Longrightarrow> snd e \<in> fst ` set calls"
proof (induction calls arbitrary: svc)
  case Nil
  then show ?case by simp
next
  case (Cons call calls)
  obtain now cs where call: "call = (now, cs)" by (cases call)
  from Cons.prems consider "e \<in> set (activationsOfCall cfg now svc cs)"
    | "e \<in> set (activationsOfRun cfg (snd (update cfg now svc cs)) calls)"
    by (auto simp: call)
  then show ?case
  proof cases
    case 1
    then have "snd e = now" by (rule activationsOfCall_stamps)
    then show ?thesis by (simp add: call)
  next
    case 2
    then have "snd e \<in> fst ` set calls" by (rule Cons.IH)
    then show ?thesis by simp
  qed
qed

lemma gaps_consecutive:
  assumes "gapsRespected c m (pre @ (k, t) # mid @ (k, t') # post)"
    and "k \<notin> fst ` set mid" and "t \<noteq> 0"
  shows "c \<le> real_of_int (t' - t)"
proof -
  have "gapsRespected c (applyLog ((applyLog m pre)(k \<mapsto> t)) mid) ((k, t') # post)"
    using assms(1) by (simp add: gapsRespected_append)
  moreover have "applyLog ((applyLog m pre)(k \<mapsto> t)) mid k = Some t"
    using assms(2) by (simp add: applyLog_other)
  ultimately show ?thesis using assms(3) by simp
qed

lemma gaps_any:
  assumes "gapsRespected c m (pre @ (k, t) # mid @ (k, t') # post)"
    and "0 \<le> c" and "t \<noteq> 0" and "\<forall>e\<in>set mid. snd e \<noteq> 0"
  shows "c \<le> real_of_int (t' - t)"
  using assms
proof (induction "length mid" arbitrary: pre t mid rule: less_induct)
  case less
  show ?case
  proof (cases "k \<in> fst ` set mid")
    case False
    from less.prems(1) False less.prems(3) show ?thesis
      by (rule gaps_consecutive)
  next
    case True
    then have "\<exists>e\<in>set mid. fst e = k" by auto
    from split_list_first_prop [OF this]
    obtain m1 e m2 where split: "mid = m1 @ e # m2" "fst e = k" "\<forall>y\<in>set m1. fst y \<noteq> k"
      by blast
    obtain t'' where e: "e = (k, t'')" using split(2) by (cases e) auto
    have t''0: "t'' \<noteq> 0" using less.prems(4) split(1) e by auto
    have g1: "gapsRespected c m (pre @ (k, t) # m1 @ (k, t'') # (m2 @ (k, t') # post))"
      using less.prems(1) by (simp add: split(1) e)
    have notin: "k \<notin> fst ` set m1" using split(3) by auto
    from g1 notin less.prems(3) have first: "c \<le> real_of_int (t'' - t)"
      by (rule gaps_consecutive)
    have g2: "gapsRespected c m ((pre @ (k, t) # m1) @ (k, t'') # m2 @ (k, t') # post)"
      using less.prems(1) by (simp add: split(1) e)
    have len: "length m2 < length mid" by (simp add: split(1))
    have rest: "\<forall>e\<in>set m2. snd e \<noteq> 0" using less.prems(4) split(1) by auto
    from len g2 less.prems(2) t''0 rest have second: "c \<le> real_of_int (t' - t'')"
      by (rule less.hyps)
    from first second less.prems(2) show ?thesis by simp
  qed
qed

text \<open>
  C3. Take any run of \<open>update\<close> calls, from any state of the service, with clock readings
  other than 0 (a reading of \<open>Date.now()\<close> is a positive number of milliseconds) and a
  cooldown that is not negative. If the run promotes an identity to ACTIVE at the reading
  \<open>t\<close> and promotes the same identity to ACTIVE again later in the run, at the reading
  \<open>t'\<close>, then \<open>t' - t\<close> is at least \<open>cooldownSeconds\<close> (in milliseconds), whatever happens
  in between: the signal may expire and be deleted and a new candidate with the same
  identity come in. Every promotion to ACTIVE writes the clock reading of the call into
  the cooldown entry of the identity.
\<close>

theorem cooldown_between_activations:
  assumes "activationsOfRun cfg svc calls = pre @ (k, t) # mid @ (k, t') # post"
    and "0 \<le> cooldownSeconds cfg"
    and "0 \<notin> fst ` set calls"
  shows "cooldownSeconds cfg * 1000 \<le> real_of_int (t' - t)
         \<and> (activatedBy cfg now svc' c \<longrightarrow>
              cooldown (updateCandidate cfg now svc' c) (sid c) = Some now)"
proof -
  have stamps: "\<forall>e\<in>set (activationsOfRun cfg svc calls). snd e \<noteq> 0"
  proof
    fix e
    assume "e \<in> set (activationsOfRun cfg svc calls)"
    then have "snd e \<in> fst ` set calls" by (rule activationsOfRun_stamps)
    then show "snd e \<noteq> 0" using assms(3) by metis
  qed
  have "gapsRespected (cooldownSeconds cfg * 1000) (cooldown svc)
          (pre @ (k, t) # mid @ (k, t') # post)"
    using activationsOfRun_gaps [of cfg svc calls] by (simp add: assms(1))
  moreover have "t \<noteq> 0" "\<forall>e\<in>set mid. snd e \<noteq> 0"
    using stamps by (auto simp: assms(1))
  ultimately have "cooldownSeconds cfg * 1000 \<le> real_of_int (t' - t)"
    using assms(2) gaps_any [of "cooldownSeconds cfg * 1000" "cooldown svc" pre k t mid t' post]
    by simp
  then show ?thesis
    by (simp add: updateCandidate_cooldown)
qed

subsection \<open>The properties at the example run\<close>

lemma exampleService_lookup:
  "map_of (signals exampleService) ''M1:over_under''
   = Some ((exampleCandidate 1000)\<lparr>state := CANDIDATE\<rparr>)"
  by code_simp

text \<open>
  The stored candidate comes in again at second 70: it goes from CANDIDATE to ACTIVE and
  is not expired.
\<close>

theorem update_states_forward_witness:
  "map_option state (map_of (signals exampleService) ''M1:over_under'') = Some CANDIDATE
   \<and> map_option state
       (map_of (signals (snd (update defaultConfig 70000 exampleService
                               [exampleCandidate 70000]))) ''M1:over_under'') = Some ACTIVE
   \<and> map (\<lambda>p. fst (expireSignal 70000 (snd p)))
       (signals (snd (update defaultConfig 70000 exampleService [exampleCandidate 70000])))
     = [False]
   \<and> EXPIRED \<notin> set (map (\<lambda>p. state (snd p))
                      (signals (snd (update defaultConfig 70000 exampleService
                                      [exampleCandidate 70000]))))"
proof -
  let ?after = "snd (update defaultConfig 70000 exampleService [exampleCandidate 70000])"
  let ?s = "(exampleCandidate 1000)\<lparr>state := CANDIDATE\<rparr>"
  have clean: "(\<forall>p\<in>set (signals exampleService). state (snd p) \<noteq> EXPIRED)
               \<and> (\<forall>c\<in>set [exampleCandidate 70000]. state c \<noteq> EXPIRED)"
    by code_simp
  have after: "map_option state (map_of (signals ?after) ''M1:over_under'') = Some ACTIVE"
    by code_simp
  have live: "map (\<lambda>p. fst (expireSignal 70000 (snd p))) (signals ?after) = [False]"
    by code_simp
  from update_states_forward
    [of ?s defaultConfig 70000 "cooldown exampleService" exampleService "''M1:over_under''"
      ?s "[exampleCandidate 70000]"]
    exampleService_lookup clean
  have "\<forall>p\<in>set (signals ?after). state (snd p) \<noteq> EXPIRED"
    by blast
  then have "EXPIRED \<notin> set (map (\<lambda>p. state (snd p)) (signals ?after))"
    by auto
  with after live show ?thesis
    by (simp add: exampleService_lookup)
qed

text \<open>
  The stored candidate comes in again at second 70 with a new confidence and reasoning:
  the stored signal keeps \<open>createdTs\<close>, is promoted from CANDIDATE to ACTIVE and has the
  new values.
\<close>

theorem update_merges_existing_witness:
  "map_option (\<lambda>s. (createdTs s, state s, confidence s, reasoning s))
     (map_of (signals (snd (update defaultConfig 70000 exampleService
                             [(exampleCandidate 70000)\<lparr>confidence := 72,
                                                       reasoning := ''new''\<rparr>])))
        ''M1:over_under'')
   = Some (1000, ACTIVE, 72, ''new'')"
proof -
  let ?c = "(exampleCandidate 70000)\<lparr>confidence := 72, reasoning := ''new''\<rparr>"
  let ?e = "(exampleCandidate 1000)\<lparr>state := CANDIDATE\<rparr>"
  let ?after = "snd (update defaultConfig 70000 exampleService [?c])"
  have h1: "distinct (map fst (signals exampleService))"
    by code_simp
  have h3: "find (\<lambda>c. sid c = ''M1:over_under'') (rev [?c]) = Some ?c"
    by code_simp
  from update_merges_existing
    [OF h1 exampleService_lookup, of defaultConfig 70000 "[?c]" ?c ?c] h3
  obtain s' where s': "createdTs s' = createdTs ?e" "confidence s' = confidence ?c"
    "reasoning s' = reasoning ?c"
    "map_of (signals ?after) ''M1:over_under''
     = (if getTimeLeft 70000 s' \<le> 0 then None else Some s')"
    by blast
  have there: "map_option state (map_of (signals ?after) ''M1:over_under'') = Some ACTIVE"
    by code_simp
  then have "map_of (signals ?after) ''M1:over_under'' = Some s'" "state s' = ACTIVE"
    using s'(4) by (auto split: if_splits)
  moreover have "createdTs ?e = 1000" "confidence ?c = 72" "reasoning ?c = ''new''"
    by (simp_all add: exampleCandidate_def newCandidate_def)
  ultimately show ?thesis
    using s'(1-3) by simp
qed

text \<open>
  In the example run the identity is promoted at second 70 and, after the signal has
  expired and a new candidate has come in, again at second 1070, which is 1000 seconds
  later.
\<close>

theorem cooldown_between_activations_witness:
  "activationsOfRun defaultConfig emptyService exampleRun
   = [(''M1:over_under'', 70000), (''M1:over_under'', 1070000)]
   \<and> cooldownSeconds defaultConfig * 1000 \<le> real_of_int (1070000 - 70000)
   \<and> cooldown (updateCandidate defaultConfig 70000 exampleService (exampleCandidate 70000))
       ''M1:over_under'' = Some 70000"
proof -
  have run: "activationsOfRun defaultConfig emptyService exampleRun
             = [] @ (''M1:over_under'', 70000) # [] @ (''M1:over_under'', 1070000) # []"
    by code_simp
  have cd: "0 \<le> cooldownSeconds defaultConfig"
    by (simp add: defaultConfig_def)
  have clock: "0 \<notin> fst ` set exampleRun"
    by (simp add: exampleRun_def)
  have act: "activatedBy defaultConfig 70000 exampleService (exampleCandidate 70000)"
    by code_simp
  have key: "sid (exampleCandidate 70000) = ''M1:over_under''"
    by (simp add: exampleCandidate_def newCandidate_def)
  from cooldown_between_activations
    [OF run cd clock, of 70000 exampleService "exampleCandidate 70000"] act key run
  show ?thesis by simp
qed

subsection \<open>Sorting by priority\<close>








subsection \<open>Grouping\<close>









subsection \<open>The limit per match and market bucket\<close>

lemma getMarketType_cases:
  "getMarketType mk = ''ou'' \<or> getMarketType mk = ''btts''
   \<or> getMarketType mk = ''next_goal'' \<or> getMarketType mk = ''other''"
  by (simp add: getMarketType_def)









subsection \<open>The order of priority at two clock readings\<close>








subsection \<open>Selection of the signals shown\<close>







section \<open>Properties of the confidence agent\<close>

subsection \<open>What an evaluation does to the Q-tables\<close>

text \<open>The table with the all-zero row of a state added when the state has no row.\<close>

lemma getQValues_qTable:
  "qTable (snd (getQValues agent st)) k
   = (if k = stateToKey st \<and> qTable agent k = None then Some (replicate actionCount 0)
      else qTable agent k)"
  by (auto simp: getQValues_def Let_def split: option.splits)

lemma getQValues_frame:
  "targetQTable (snd (getQValues agent st)) = targetQTable agent"
  "config (snd (getQValues agent st)) = config agent"
  by (simp_all add: getQValues_def Let_def split: option.splits)

lemma getQValues_row:
  "fst (getQValues agent st)
   = (case qTable agent (stateToKey st) of None \<Rightarrow> replicate actionCount 0 | Some row \<Rightarrow> row)"
  by (simp add: getQValues_def Let_def split: option.splits)

lemma selectAction_qTable:
  "qTable (snd (selectAction agent st r1 r2)) k
   = (if \<not> r1 < epsilon (config agent) \<and> k = stateToKey st \<and> qTable agent k = None
      then Some (replicate actionCount 0) else qTable agent k)"
  using getQValues_qTable [of agent st k]
  by (auto simp: selectAction_def case_prod_beta)

lemma selectAction_target:
  "targetQTable (snd (selectAction agent st r1 r2)) = targetQTable agent"
  by (simp add: selectAction_def case_prod_beta getQValues_frame)

lemma storeStateAction_tables:
  "qTable (snd (storeStateAction agent st action analysis mId now newId)) = qTable agent"
  "targetQTable (snd (storeStateAction agent st action analysis mId now newId))
   = targetQTable agent"
  by (simp_all add: storeStateAction_def Let_def)

lemma trackDecisionQuality_qTable:
  "qTable (trackDecisionQuality agent st action) k
   = (if k = stateToKey st \<and> qTable agent k = None then Some (replicate actionCount 0)
      else qTable agent k)"
  using getQValues_qTable [of agent st k]
  by (simp add: trackDecisionQuality_def case_prod_beta Let_def)

lemma trackDecisionQuality_target:
  "targetQTable (trackDecisionQuality agent st action) = targetQTable agent"
  by (simp add: trackDecisionQuality_def case_prod_beta Let_def getQValues_frame)

lemma evaluateSignal_agent:
  "snd (evaluateSignal agent analysis (Some st) mId now r1 r2 newId)
   = trackDecisionQuality
       (snd (storeStateAction (snd (selectAction agent st r1 r2)) st
               (fst (selectAction agent st r1 r2)) analysis mId now newId))
       st (fst (selectAction agent st r1 r2))"
  by (simp add: evaluateSignal_def case_prod_beta Let_def)

lemma evaluateSignal_qTable:
  "qTable (snd (evaluateSignal agent analysis (Some st) mId now r1 r2 newId)) k
   = (if k = stateToKey st \<and> qTable agent k = None then Some (replicate actionCount 0)
      else qTable agent k)"
  by (auto simp: evaluateSignal_agent trackDecisionQuality_qTable storeStateAction_tables
      selectAction_qTable)

lemma evaluateSignal_target:
  "targetQTable (snd (evaluateSignal agent analysis features mId now r1 r2 newId))
   = targetQTable agent"
proof (cases features)
  case None
  then show ?thesis by (simp add: evaluateSignal_def)
next
  case (Some st)
  then show ?thesis
    by (simp add: evaluateSignal_agent trackDecisionQuality_target storeStateAction_tables
        selectAction_target)
qed

text \<open>
  C6, as stated, fails: the mapping from state keys to rows is not the same after the
  call. The evaluation of a state that has no row puts the row of five zeros into the
  main table.
\<close>

theorem evaluateSignal_adds_row:
  "qTable (snd (evaluateSignal newAgent (exampleAnalysis 70) (Some exampleState) None 1000
                 (1 / 2) 0 ''signal_1'')) (stateToKey exampleState)
   \<noteq> qTable newAgent (stateToKey exampleState)"
  by (simp add: evaluateSignal_qTable newAgent_def)

text \<open>
  C6, as amended. \<open>evaluateSignal\<close> leaves the target table as it is and leaves every row
  of the main table as it is; the one change it can make to the main table is to add the
  row of zeros for the state it evaluates, when that state has no row. What
  \<open>getQValues\<close> reads for any state is the same before and after the call.
\<close>

theorem evaluateSignal_keeps_q_values:
  "targetQTable (snd (evaluateSignal agent analysis features mId now r1 r2 newId))
     = targetQTable agent
   \<and> qTable (snd (evaluateSignal agent analysis features mId now r1 r2 newId)) k
     = (case features of
          None \<Rightarrow> qTable agent k
        | Some st \<Rightarrow>
            if k = stateToKey st \<and> qTable agent k = None
            then Some (replicate actionCount 0) else qTable agent k)
   \<and> fst (getQValues (snd (evaluateSignal agent analysis features mId now r1 r2 newId)) st')
     = fst (getQValues agent st')"
proof (cases features)
  case None
  then show ?thesis by (simp add: evaluateSignal_def)
next
  case (Some st)
  then show ?thesis
    by (auto simp: evaluateSignal_target evaluateSignal_qTable getQValues_row
        split: option.splits)
qed

text \<open>
  A table with one row: after the evaluation of another state the row is as before, and
  the evaluated state has the row of zeros.
\<close>

theorem evaluateSignal_keeps_q_values_witness:
  "qTable (snd (evaluateSignal (newAgent\<lparr>qTable := [[1, 2] \<mapsto> [0, 3, 0, 0, 1]]\<rparr>)
                 (exampleAnalysis 70) (Some exampleState) None 1000 (1 / 2) 0 ''signal_1''))
     [1, 2] = Some [0, 3, 0, 0, 1]
   \<and> qTable (snd (evaluateSignal (newAgent\<lparr>qTable := [[1, 2] \<mapsto> [0, 3, 0, 0, 1]]\<rparr>)
                   (exampleAnalysis 70) (Some exampleState) None 1000 (1 / 2) 0 ''signal_1''))
       (stateToKey exampleState) = Some [0, 0, 0, 0, 0]"
proof -
  let ?agent = "newAgent\<lparr>qTable := [[1, 2] \<mapsto> [0, 3, 0, 0, 1]]\<rparr>"
  have key: "stateToKey exampleState = [90, 50, 40]"
    by (simp add: stateToKey_def exampleState_def mathRound_def)
  have zeros: "replicate actionCount (0::real) = [0, 0, 0, 0, 0]"
    by (simp add: actionCount_def numeral_eq_Suc)
  from evaluateSignal_keeps_q_values
    [of ?agent "exampleAnalysis 70" "Some exampleState" None 1000 "1 / 2" 0 "''signal_1''"
      "[1, 2]" exampleState]
    evaluateSignal_keeps_q_values
    [of ?agent "exampleAnalysis 70" "Some exampleState" None 1000 "1 / 2" 0 "''signal_1''"
      "[90, 50, 40]" exampleState]
  show ?thesis
    by (simp add: key zeros)
qed

subsection \<open>The greedy action of a state without learned values\<close>

lemma fold_max_zeros: "\<forall>v\<in>set xs. v = 0 \<Longrightarrow> fold max xs (0::real) = 0"
  by (induction xs) simp_all

lemma indexOfMax_zeros:
  assumes "row \<noteq> []" and "\<forall>v\<in>set row. v = (0::real)"
  shows "indexOfMax row = 0"
proof -
  obtain x xs where row: "row = x # xs" using assms(1) by (cases row) auto
  then have "x = 0" "\<forall>v\<in>set xs. v = 0" using assms(2) by auto
  then show ?thesis
    by (simp add: indexOfMax_def row fold_max_zeros)
qed

lemma evaluateSignal_shouldGenerate:
  "shouldGenerate (fst (evaluateSignal agent analysis (Some st) mId now r1 r2 newId))
   = (fst (selectAction agent st r1 r2) \<in> {1, 2, 3, 4})"
  by (simp add: evaluateSignal_def case_prod_beta Let_def)

text \<open>
  C10. When the epsilon draw takes the exploitation branch and the state has no row in
  the Q-table, or a row (not empty) of zeros only, \<open>selectAction\<close> returns the action 0
  and \<open>evaluateSignal\<close> returns \<open>shouldGenerate = false\<close>. For a state without a row,
  \<open>getQValues\<close> answers with five zeros.
\<close>

theorem greedy_action_of_fresh_state_is_reject:
  assumes "\<not> r1 < epsilon (config agent)"
    and "qTable agent (stateToKey st) = None
         \<or> (\<exists>row. qTable agent (stateToKey st) = Some row \<and> row \<noteq> []
                  \<and> (\<forall>v\<in>set row. v = 0))"
  shows "fst (selectAction agent st r1 r2) = 0
         \<and> shouldGenerate (fst (evaluateSignal agent analysis (Some st) mId now r1 r2 newId))
           = False
         \<and> (qTable agent (stateToKey st) = None \<longrightarrow>
              fst (getQValues agent st) = [0, 0, 0, 0, 0])"
proof -
  have row: "fst (getQValues agent st) \<noteq> [] \<and> (\<forall>v\<in>set (fst (getQValues agent st)). v = 0)"
    using assms(2) by (auto simp: getQValues_row actionCount_def)
  have "fst (selectAction agent st r1 r2) = indexOfMax (fst (getQValues agent st))"
    using assms(1) by (simp add: selectAction_def case_prod_beta)
  then have "fst (selectAction agent st r1 r2) = 0"
    using row by (simp add: indexOfMax_zeros)
  then show ?thesis
    by (simp add: evaluateSignal_shouldGenerate getQValues_row actionCount_def numeral_eq_Suc)
qed

text \<open>A new agent (epsilon 0.3) with the epsilon draw 0.5: the signal is rejected.\<close>

theorem greedy_action_of_fresh_state_is_reject_witness:
  "fst (selectAction newAgent exampleState (1 / 2) 0) = 0
   \<and> shouldGenerate (fst (evaluateSignal newAgent (exampleAnalysis 70) (Some exampleState)
                            None 1000 (1 / 2) 0 ''signal_1'')) = False
   \<and> fst (getQValues newAgent exampleState) = [0, 0, 0, 0, 0]"
proof -
  have greedy: "\<not> 1 / 2 < epsilon (config newAgent)"
    by (simp add: newAgent_def defaultAgentConfig_def)
  have fresh: "qTable newAgent (stateToKey exampleState) = None
               \<or> (\<exists>row. qTable newAgent (stateToKey exampleState) = Some row \<and> row \<noteq> []
                        \<and> (\<forall>v\<in>set row. v = 0))"
    by (simp add: newAgent_def)
  have none: "qTable newAgent (stateToKey exampleState) = None"
    by (simp add: newAgent_def)
  from greedy_action_of_fresh_state_is_reject [OF greedy fresh] none show ?thesis
    by simp
qed

subsection \<open>The reward\<close>

text \<open>
  What \<open>calculateAdvancedReward\<close> returns: the base reward of the outcome, and the
  correction for the recorded confidence. The correction is made only when a confidence
  other than 0 is recorded.
\<close>

lemma calculateAdvancedReward_expired:
  "calculateAdvancedReward Expired profit stateAction = - (2 / 10)"
  by (simp add: calculateAdvancedReward_def Let_def split: option.splits)

lemma calculateAdvancedReward_won:
  assumes "Option.bind stateAction originalConfidence = Some oc" and "oc \<noteq> 0"
  shows "\<exists>bonus. 0 \<le> bonus \<and> bonus \<le> 1 / 2
           \<and> calculateAdvancedReward Won profit stateAction
             = 1 + bonus + (if oc < 60 then 2 / 10 else 0)"
proof (cases "\<exists>p. profit = Some p \<and> p > 0")
  case True
  then obtain p where "profit = Some p" "p > 0" by blast
  then have "calculateAdvancedReward Won profit stateAction
             = 1 + min (p / 100) (1 / 2) + (if oc < 60 then 2 / 10 else 0)"
    using assms by (simp add: calculateAdvancedReward_def Let_def)
  moreover have "0 \<le> min (p / 100) (1 / 2)" "min (p / 100) (1 / 2) \<le> 1 / 2"
    using \<open>p > 0\<close> by simp_all
  ultimately show ?thesis by blast
next
  case False
  then have "calculateAdvancedReward Won profit stateAction
             = 1 + 0 + (if oc < 60 then 2 / 10 else 0)"
    using assms by (cases profit) (auto simp: calculateAdvancedReward_def Let_def)
  then show ?thesis by force
qed

lemma calculateAdvancedReward_lost:
  assumes "Option.bind stateAction originalConfidence = Some oc" and "oc \<noteq> 0"
  shows "\<exists>penalty. - (1 / 2) \<le> penalty \<and> penalty \<le> 0
           \<and> calculateAdvancedReward Lost profit stateAction
             = - 1 + penalty - (if oc > 80 then 3 / 10 else 0)"
proof (cases "\<exists>p. profit = Some p \<and> p < 0")
  case True
  then obtain p where "profit = Some p" "p < 0" by blast
  then have "calculateAdvancedReward Lost profit stateAction
             = - 1 + max (p / 100) (- (1 / 2)) - (if oc > 80 then 3 / 10 else 0)"
    using assms by (simp add: calculateAdvancedReward_def Let_def)
  moreover have "- (1 / 2) \<le> max (p / 100) (- (1 / 2))" "max (p / 100) (- (1 / 2)) \<le> 0"
    using \<open>p < 0\<close> by simp_all
  ultimately show ?thesis by blast
next
  case False
  then have "calculateAdvancedReward Lost profit stateAction
             = - 1 + 0 - (if oc > 80 then 3 / 10 else 0)"
    using assms by (cases profit) (auto simp: calculateAdvancedReward_def Let_def)
  then show ?thesis by force
qed

text \<open>
  The pending entry that an evaluation records under its identifier. The identifiers of
  the pending entries are the keys of a map, so they are distinct: this holds for a new
  agent and is kept by every evaluation. The cleanup of \<open>storeStateAction\<close> removes entries
  older than 24 hours and so never the entry it has just written.
\<close>

lemma getQValues_pending:
  "pendingStateActions (snd (getQValues agent st)) = pendingStateActions agent"
  by (simp add: getQValues_def Let_def split: option.splits)

lemma selectAction_pending:
  "pendingStateActions (snd (selectAction agent st r1 r2)) = pendingStateActions agent"
  by (simp add: selectAction_def case_prod_beta getQValues_pending)

lemma trackDecisionQuality_pending:
  "pendingStateActions (trackDecisionQuality agent st action) = pendingStateActions agent"
  by (simp add: trackDecisionQuality_def case_prod_beta Let_def getQValues_pending)

lemma fold_delete_map_of:
  "k \<notin> set ks \<Longrightarrow> map_of (fold AList.delete ks xs) k = map_of xs k"
  by (induction ks arbitrary: xs) (simp_all add: delete_conv')

lemma storeStateAction_pending:
  assumes "distinct (map fst (pendingStateActions agent))"
  shows "map_of (pendingStateActions
                   (snd (storeStateAction agent st action analysis mId now newId))) newId
         = Some \<lparr>p_state = st, p_action = action, p_timestamp = now, p_matchId = mId,
                  originalConfidence = Some (a_confidence analysis),
                  p_market = a_market analysis\<rparr>"
proof -
  let ?e = "\<lparr>p_state = st, p_action = action, p_timestamp = now, p_matchId = mId,
             originalConfidence = Some (a_confidence analysis),
             p_market = a_market analysis\<rparr>"
  let ?p = "AList.update newId ?e (pendingStateActions agent)"
  let ?old = "map fst (filter (\<lambda>(k, a). p_timestamp a < now - 24 * 60 * 60 * 1000) ?p)"
  have d: "distinct (map fst ?p)"
    using assms by (rule distinct_update)
  have m: "map_of ?p newId = Some ?e"
    by (simp add: update_conv')
  have "newId \<notin> set ?old"
  proof
    assume "newId \<in> set ?old"
    then obtain a where a: "(newId, a) \<in> set ?p" "p_timestamp a < now - 24 * 60 * 60 * 1000"
      by auto
    from d a(1) have "map_of ?p newId = Some a"
      by (rule map_of_is_SomeI)
    with m have "a = ?e" by simp
    with a(2) show False by simp
  qed
  then have "map_of (fold AList.delete ?old ?p) newId = Some ?e"
    using m by (simp add: fold_delete_map_of)
  then show ?thesis
    by (simp add: storeStateAction_def Let_def)
qed

lemma evaluateSignal_pending:
  assumes "distinct (map fst (pendingStateActions agent))"
  shows "map_of (pendingStateActions
                   (snd (evaluateSignal agent analysis (Some st) mId now r1 r2 newId))) newId
         = Some \<lparr>p_state = st, p_action = fst (selectAction agent st r1 r2),
                  p_timestamp = now, p_matchId = mId,
                  originalConfidence = Some (a_confidence analysis),
                  p_market = a_market analysis\<rparr>"
proof -
  have "distinct (map fst (pendingStateActions (snd (selectAction agent st r1 r2))))"
    using assms by (simp add: selectAction_pending)
  then show ?thesis
    by (simp add: evaluateSignal_agent trackDecisionQuality_pending storeStateAction_pending)
qed

lemma evaluateSignal_signalId:
  "signalId (fst (evaluateSignal agent analysis (Some st) mId now r1 r2 newId)) = Some newId"
  by (simp add: evaluateSignal_def storeStateAction_def case_prod_beta Let_def)

lemma storeStateAction_distinct:
  assumes "distinct (map fst (pendingStateActions agent))"
  shows "distinct (map fst (pendingStateActions
                     (snd (storeStateAction agent st action analysis mId now newId))))"
proof -
  have "distinct (map fst xs) \<Longrightarrow> distinct (map fst (fold AList.delete ks xs))" for ks
    and xs :: "(string \<times> PendingStateAction) list"
    by (induction ks arbitrary: xs) (simp_all add: distinct_delete)
  then show ?thesis
    using assms by (simp add: storeStateAction_def Let_def distinct_update)
qed

lemma evaluateSignal_distinct:
  assumes "distinct (map fst (pendingStateActions agent))"
  shows "distinct (map fst (pendingStateActions
                     (snd (evaluateSignal agent analysis features mId now r1 r2 newId))))"
proof (cases features)
  case None
  then show ?thesis using assms by (simp add: evaluateSignal_def)
next
  case (Some st)
  then show ?thesis
    using assms
    by (simp add: evaluateSignal_agent trackDecisionQuality_pending storeStateAction_distinct
        selectAction_pending)
qed

lemma newAgent_distinct: "distinct (map fst (pendingStateActions newAgent))"
  by (simp add: newAgent_def)

text \<open>
  C7. Take an evaluation that is tracked: \<open>evaluateSignal\<close>, in any state \<open>agent0\<close> of the
  agent, has recorded an analysis under the identifier \<open>newId\<close>, and \<open>agent\<close> is a state
  of the agent in which the entry of \<open>newId\<close> is the recorded one (the source never
  changes an entry: it writes one in \<open>storeStateAction\<close> only and deletes it in
  \<open>updateFromResult\<close> or in the cleanup). The confidence of the analysis is other than 0;
  the analyses that the market selector emits have a confidence of 50 or more. Then
  \<open>updateFromResult\<close> finds the entry, and its reward is: for \<open>won\<close>, 1 plus the bonus
  \<open>min (profit / 100) 0.5\<close> for a positive profit, plus 0.2 when the confidence is below
  60; for \<open>lost\<close>, -1 plus the penalty \<open>max (profit / 100) (-0.5)\<close> for a negative profit,
  minus 0.3 when the confidence is above 80; for \<open>expired\<close>, -0.2. So a loss at a
  confidence above 80 has a reward below -1, whatever the profit.
\<close>

theorem updateFromResult_reward_of_tracked_evaluation:
  assumes "distinct (map fst (pendingStateActions agent0))"
    and "a_confidence analysis \<noteq> 0"
    and "map_of (pendingStateActions agent) newId
         = map_of (pendingStateActions
                     (snd (evaluateSignal agent0 analysis (Some st) mId now r1 r2 newId)))
             newId"
  shows "updateFromResult_reward agent newId Won profit
         = Some (1
                 + (case profit of
                      Some p \<Rightarrow> if p > 0 then min (p / 100) (1 / 2) else 0
                    | None \<Rightarrow> 0)
                 + (if a_confidence analysis < 60 then 2 / 10 else 0))
       \<and> updateFromResult_reward agent newId Lost profit
         = Some (- 1
                 + (case profit of
                      Some p \<Rightarrow> if p < 0 then max (p / 100) (- (1 / 2)) else 0
                    | None \<Rightarrow> 0)
                 - (if a_confidence analysis > 80 then 3 / 10 else 0))
       \<and> updateFromResult_reward agent newId Expired profit = Some (- (2 / 10))
       \<and> (a_confidence analysis > 80 \<longrightarrow>
            (\<exists>r. updateFromResult_reward agent newId Lost profit = Some r \<and> r < - 1))"
proof -
  let ?e = "\<lparr>p_state = st, p_action = fst (selectAction agent0 st r1 r2), p_timestamp = now,
             p_matchId = mId, originalConfidence = Some (a_confidence analysis),
             p_market = a_market analysis\<rparr>"
  have entry: "map_of (pendingStateActions agent) newId = Some ?e"
    using assms(1,3) by (simp add: evaluateSignal_pending)
  have won: "updateFromResult_reward agent newId Won profit
         = Some (1
                 + (case profit of
                      Some p \<Rightarrow> if p > 0 then min (p / 100) (1 / 2) else 0
                    | None \<Rightarrow> 0)
                 + (if a_confidence analysis < 60 then 2 / 10 else 0))"
    using assms(2)
    by (simp add: updateFromResult_reward_def entry calculateAdvancedReward_def Let_def
        split: option.splits)
  have lost: "updateFromResult_reward agent newId Lost profit
         = Some (- 1
                 + (case profit of
                      Some p \<Rightarrow> if p < 0 then max (p / 100) (- (1 / 2)) else 0
                    | None \<Rightarrow> 0)
                 - (if a_confidence analysis > 80 then 3 / 10 else 0))"
    using assms(2)
    by (simp add: updateFromResult_reward_def entry calculateAdvancedReward_def Let_def
        split: option.splits)
  have expired: "updateFromResult_reward agent newId Expired profit = Some (- (2 / 10))"
    by (simp add: updateFromResult_reward_def entry calculateAdvancedReward_expired)
  have "(case profit of Some p \<Rightarrow> if p < 0 then max (p / 100) (- (1 / 2)) else 0 | None \<Rightarrow> 0)
        \<le> (0::real)"
    by (simp split: option.splits)
  then have over: "a_confidence analysis > 80 \<longrightarrow>
            (\<exists>r. updateFromResult_reward agent newId Lost profit = Some r \<and> r < - 1)"
    unfolding lost by auto
  from won lost expired over show ?thesis by blast
qed

text \<open>
  The example of the specification: a new agent evaluates an analysis with the
  confidence 90; the feedback \<open>lost\<close> with the profit -10 gets the reward -1.4, which is
  below -1. With the same profit \<open>won\<close> gets 1 and \<open>expired\<close> gets -0.2.
\<close>

theorem updateFromResult_reward_of_tracked_evaluation_witness:
  "updateFromResult_reward
     (snd (evaluateSignal newAgent (exampleAnalysis 90) (Some exampleState) None 1000
            (1 / 2) 0 ''signal_1''))
     ''signal_1'' Lost (Some (- 10)) = Some (- (14 / 10))
   \<and> updateFromResult_reward
       (snd (evaluateSignal newAgent (exampleAnalysis 90) (Some exampleState) None 1000
              (1 / 2) 0 ''signal_1''))
       ''signal_1'' Won (Some (- 10)) = Some 1
   \<and> updateFromResult_reward
       (snd (evaluateSignal newAgent (exampleAnalysis 90) (Some exampleState) None 1000
              (1 / 2) 0 ''signal_1''))
       ''signal_1'' Expired (Some (- 10)) = Some (- (2 / 10))
   \<and> (\<exists>r. updateFromResult_reward
             (snd (evaluateSignal newAgent (exampleAnalysis 90) (Some exampleState) None 1000
                    (1 / 2) 0 ''signal_1''))
             ''signal_1'' Lost (Some (- 10)) = Some r \<and> r < - 1)"
proof -
  have keys: "distinct (map fst (pendingStateActions newAgent))"
    by (simp add: newAgent_def)
  have conf: "a_confidence (exampleAnalysis 90) \<noteq> 0" "a_confidence (exampleAnalysis 90) > 80"
    by (simp_all add: exampleAnalysis_def)
  from updateFromResult_reward_of_tracked_evaluation [OF keys conf(1) refl,
      of exampleState None 1000 "1 / 2" 0 "''signal_1''" "Some (- 10)"] conf(2)
  show ?thesis
    by (simp add: exampleAnalysis_def)
qed

text \<open>
  The confidence 0, which no analysis of the market selector has: the test
  \<open>stateAction?.originalConfidence\<close> fails for it as for a missing value, and a win gets
  the reward 1, where the confidence 1 gets 1.2.
\<close>

lemma reward_of_win_with_confidence_zero:
  "updateFromResult_reward
     (snd (evaluateSignal newAgent (exampleAnalysis 0) (Some exampleState) None 1000
            (1 / 2) 0 ''signal_1''))
     ''signal_1'' Won None = Some 1
   \<and> updateFromResult_reward
       (snd (evaluateSignal newAgent (exampleAnalysis 1) (Some exampleState) None 1000
              (1 / 2) 0 ''signal_1''))
       ''signal_1'' Won None = Some (12 / 10)"
  by (simp add: updateFromResult_reward_def evaluateSignal_pending newAgent_distinct
      calculateAdvancedReward_def exampleAnalysis_def)
end
